theory Spec2Isabelle
  imports Complex_Main
begin

section \<open>Values of the Python program\<close>

text \<open>
  The request pipeline of \<^verbatim>\<open>src/main.py\<close> is the function \<^verbatim>\<open>http_middleware\<close>
  (lines 117 to 190) together with the three exception handlers registered after it.
  Python integers are \<open>int\<close>, Python strings are \<open>string\<close> (one \<open>char\<close> per code
  point of a header value, which is Latin-1), dictionaries written as literals are
  association lists in the order of the literal, and an exception that is raised is the
  left summand of the result.
\<close>

datatype json = JStr string | JInt int | JObj "(string \<times> json) list"

datatype py_exception =
    HTTPException (status_code: int) (detail: json) (exc_headers: "(string \<times> string) list option")
  | RequestValidationError (errors: json)
  | ValueError
  | OtherException string

record request =
  path :: string
  req_headers :: "string \<rightharpoonup> string"
  stream :: "string list"
  req_body :: "string option"
  client :: string

record response =
  status :: int
  headers :: "string \<rightharpoonup> string"
  content :: string

text \<open>
  The calls the middleware makes on its collaborators, in the order it makes them:
  \<^verbatim>\<open>cache.get(key)\<close>, \<^verbatim>\<open>cache.set(key, value, ttl)\<close>, \<^verbatim>\<open>call_next(request)\<close> and
  \<^verbatim>\<open>monitor.increment_request(response_time_ms)\<close>.
\<close>

datatype event =
    CacheGet string
  | CacheSet string int int
  | CallNext request
  | IncrementRequest real

text \<open>
  What the middleware reads from modules that are not part of \<^verbatim>\<open>src/main.py\<close>: the three
  constants of \<^verbatim>\<open>Constants\<close>, the two methods of the cache object (over any type \<open>'c\<close> of
  cache states), \<^verbatim>\<open>util.get_client_identifier\<close>, the downstream handler chain
  \<^verbatim>\<open>call_next\<close>, which returns a response or raises, \<^verbatim>\<open>middleware.add_security_headers\<close>,
  and the rendering of a float by the format \<^verbatim>\<open>.2f\<close>.
\<close>

record 'c env =
  MAX_BODY_SIZE :: int
  MAX_REQUESTS :: int
  WINDOW :: int
  cache_get :: "'c \<Rightarrow> string \<Rightarrow> int option"
  cache_set :: "'c \<Rightarrow> string \<Rightarrow> int \<Rightarrow> int \<Rightarrow> 'c"
  get_client_identifier :: "request \<Rightarrow> string"
  call_next :: "request \<Rightarrow> py_exception + response"
  add_security_headers :: "request \<Rightarrow> response \<Rightarrow> response"
  format_2f :: "real \<Rightarrow> string"

section \<open>Built-in conversions\<close>

text \<open>\<^verbatim>\<open>str(n)\<close> and \<^verbatim>\<open>f"{n}"\<close> of an integer: its decimal digits, with a minus sign when negative.\<close>

definition digit_chr :: "nat \<Rightarrow> char" where
  "digit_chr d = ''0123456789'' ! d"

fun str_nat :: "nat \<Rightarrow> string" where
  "str_nat n = (if n < 10 then [digit_chr n] else str_nat (n div 10) @ [digit_chr (n mod 10)])"

declare str_nat.simps [simp del]

definition str :: "int \<Rightarrow> string" where
  "str i = (if i < 0 then CHR ''-'' # str_nat (nat (- i)) else str_nat (nat i))"

text \<open>
  \<^verbatim>\<open>int(s)\<close> of a string, base 10: white space on both sides is skipped, one sign is
  allowed, then come decimal digits, where single underscores may stand between two digits
  (the scan remembers the previous character, and the token may neither start nor end with
  an underscore);
  anything else raises \<^verbatim>\<open>ValueError\<close> (\<open>None\<close> here). Among the code points a header value can
  hold, the white space of \<^verbatim>\<open>int\<close> is 9 to 13, 32, 133 and 160, and the only decimal digits
  are \<^verbatim>\<open>0\<close> to \<^verbatim>\<open>9\<close>. A string with more digits than the interpreter's limit on integer
  string conversion, 4300 unless the process changes it (which \<^verbatim>\<open>src/main.py\<close> does not),
  raises \<^verbatim>\<open>ValueError\<close> as well; leading zeros count, underscores and white space do not.
\<close>

definition int_max_str_digits :: nat where
  "int_max_str_digits = 4300"

definition py_isspace :: "char \<Rightarrow> bool" where
  "py_isspace c = ((of_char c :: nat) \<in> {9, 10, 11, 12, 13, 32, 133, 160})"

definition is_digit :: "char \<Rightarrow> bool" where
  "is_digit c = (48 \<le> (of_char c :: nat) \<and> (of_char c :: nat) \<le> 57)"

definition digit_val :: "char \<Rightarrow> nat" where
  "digit_val c = of_char c - 48"

fun scan_underscores :: "char \<Rightarrow> string \<Rightarrow> bool" where
  "scan_underscores prev [] = (prev \<noteq> CHR ''_'')"
| "scan_underscores prev (c # cs) =
     (if c = CHR ''_'' \<and> prev = CHR ''_'' then False else scan_underscores c cs)"

definition underscores_ok :: "string \<Rightarrow> bool" where
  "underscores_ok token = (token \<noteq> [] \<and> hd token \<noteq> CHR ''_'' \<and> scan_underscores (CHR 0x00) token)"

definition py_int :: "string \<Rightarrow> int option" where
  "py_int s =
    (let s1 = dropWhile py_isspace s;
         negative = (s1 \<noteq> [] \<and> hd s1 = CHR ''-'');
         s2 = (if s1 \<noteq> [] \<and> (hd s1 = CHR ''+'' \<or> hd s1 = CHR ''-'') then tl s1 else s1);
         token = takeWhile (\<lambda>c. is_digit c \<or> c = CHR ''_'') s2;
         rest = dropWhile (\<lambda>c. is_digit c \<or> c = CHR ''_'') s2
     in if underscores_ok token \<and> length (filter is_digit token) \<le> int_max_str_digits \<and>
           dropWhile py_isspace rest = [] then
          let n = foldl (\<lambda>a c. 10 * a + digit_val c) 0 (filter is_digit token)
          in Some (if negative then - int n else int n)
        else None)"

section \<open>The middleware\<close>

text \<open>Lines 130 to 133 and 139 to 142: the exception raised by the body size check.\<close>

definition request_too_large :: "'c env \<Rightarrow> py_exception" where
  "request_too_large env =
     HTTPException 413
       (JStr (''Request entity too large. Max allowed: '' @ str (MAX_BODY_SIZE env) @ '' bytes''))
       None"

text \<open>
  Lines 135 to 142: the chunks of the stream are appended to \<^verbatim>\<open>body\<close> one by one, and the
  loop raises as soon as the accumulated length exceeds the limit. The list holds every
  chunk that \<^verbatim>\<open>request.stream()\<close> yields, the empty ones included.
\<close>

fun read_stream :: "'c env \<Rightarrow> string \<Rightarrow> string list \<Rightarrow> py_exception + string" where
  "read_stream env body [] = Inr body"
| "read_stream env body (chunk # chunks) =
     (let body = body @ chunk
      in if int (length body) > MAX_BODY_SIZE env then Inl (request_too_large env)
         else read_stream env body chunks)"

text \<open>Lines 135 to 143: the body is read from the stream and stored in the request.\<close>

definition buffer_body :: "'c env \<Rightarrow> request \<Rightarrow> py_exception + request" where
  "buffer_body env request =
    (case read_stream env [] (stream request) of
       Inl exc \<Rightarrow> Inl exc
     | Inr b \<Rightarrow> Inr (request\<lparr>req_body := Some b\<rparr>))"

text \<open>
  Lines 126 to 143. A header that is absent (\<^verbatim>\<open>None\<close>) or empty is false for
  \<^verbatim>\<open>if content_length:\<close>; otherwise \<^verbatim>\<open>int(content_length)\<close> is compared with the limit.
\<close>

definition body_size_check :: "'c env \<Rightarrow> request \<Rightarrow> py_exception + request" where
  "body_size_check env request =
    (case req_headers request ''content-length'' of
       None \<Rightarrow> buffer_body env request
     | Some content_length \<Rightarrow>
         if content_length = [] then buffer_body env request
         else
           (case py_int content_length of
              None \<Rightarrow> Inl ValueError
            | Some n \<Rightarrow>
                if n > MAX_BODY_SIZE env then Inl (request_too_large env) else Inr request))"

text \<open>Line 152: \<^verbatim>\<open>new_value = (current + 1) if current else 1\<close>; \<^verbatim>\<open>None\<close> and \<^verbatim>\<open>0\<close> are false.\<close>

definition incremented :: "int option \<Rightarrow> int" where
  "incremented current = (case current of None \<Rightarrow> 1 | Some c \<Rightarrow> if c \<noteq> 0 then c + 1 else 1)"

text \<open>Lines 155 to 170: the exception raised by the rate limit check.\<close>

definition too_many_requests :: "'c env \<Rightarrow> py_exception" where
  "too_many_requests env =
     HTTPException 429
       (JObj [(''error'', JStr ''Too many requests''),
              (''message'', JStr ''Rate limit exceeded. Try again in 60 seconds.''),
              (''retry_after'', JStr (str (WINDOW env))),
              (''limit'', JInt (MAX_REQUESTS env)),
              (''window'', JInt (WINDOW env))])
       (Some [(''Retry-After'', str (WINDOW env)),
              (''X-RateLimit-Limit'', str (MAX_REQUESTS env)),
              (''X-RateLimit-Remaining'', ''0''),
              (''X-RateLimit-Reset'', str (WINDOW env))])"

text \<open>\<^verbatim>\<open>response.headers[name] = value\<close>.\<close>

definition set_header :: "string \<Rightarrow> string \<Rightarrow> response \<Rightarrow> response" where
  "set_header name v response = response\<lparr>headers := (headers response)(name \<mapsto> v)\<rparr>"

text \<open>
  Lines 178 to 185: the headers put on the response of the handler. \<open>perf\<close> holds the two
  readings of \<^verbatim>\<open>time.perf_counter()\<close>, at line 124 and at line 184, as real numbers.
\<close>

definition response_time_ms :: "real \<times> real \<Rightarrow> real" where
  "response_time_ms perf = (snd perf - fst perf) * 1000"

definition annotate :: "'c env \<Rightarrow> real \<times> real \<Rightarrow> request \<Rightarrow> int \<Rightarrow> response \<Rightarrow> response" where
  "annotate env perf request current response =
    (let remaining = max (MAX_REQUESTS env - current) 0;
         response = set_header ''X-RateLimit-Limit'' (str (MAX_REQUESTS env)) response;
         response = set_header ''X-RateLimit-Remaining'' (str remaining) response;
         response = set_header ''X-RateLimit-Reset'' (str (WINDOW env)) response;
         response = add_security_headers env request response
     in set_header ''X-Response-Time'' (format_2f env (response_time_ms perf) @ ''ms'') response)"

text \<open>
  Lines 118 to 190. The result is what the call returns or raises, the state of the cache
  after the call, and the calls made on the collaborators, in order.
\<close>

definition http_middleware ::
  "'c env \<Rightarrow> 'c \<Rightarrow> real \<times> real \<Rightarrow> request \<Rightarrow> (py_exception + response) \<times> 'c \<times> event list" where
  "http_middleware env cache perf request =
    (if path request \<in> set [''/docs'', ''/redoc'', ''/openapi.json''] then
       (call_next env request, cache, [CallNext request])
     else
       (case body_size_check env request of
         Inl exc \<Rightarrow> (Inl exc, cache, [])
       | Inr request \<Rightarrow>
           let identifier = get_client_identifier env request;
               key = ''rate_limit:'' @ identifier;
               current = cache_get env cache key;
               new_value = incremented current
           in if new_value > MAX_REQUESTS env then
                (Inl (too_many_requests env), cache, [CacheGet key])
              else
                let cache = cache_set env cache key new_value (WINDOW env);
                    current = new_value;
                    called = [CacheGet key, CacheSet key new_value (WINDOW env), CallNext request]
                in (case call_next env request of
                      Inl exc \<Rightarrow> (Inl exc, cache, called)
                    | Inr response \<Rightarrow>
                        (Inr (annotate env perf request current response), cache,
                         called @ [IncrementRequest (response_time_ms perf)]))))"

section \<open>The exception handlers\<close>

text \<open>
  Each handler of lines 193 to 226 returns what \<^verbatim>\<open>log_service.log_and_build_response\<close>
  builds from its keyword arguments. That function is not part of \<^verbatim>\<open>src/main.py\<close>, so a
  handler's result is the record of the arguments it passes.
\<close>

record log_and_build_response =
  lb_request :: request
  lb_exc :: py_exception
  error_level :: string
  lb_status_code :: int
  lb_detail :: json

definition http_exception_handler :: "request \<Rightarrow> py_exception \<Rightarrow> log_and_build_response" where
  "http_exception_handler request exc =
     \<lparr>lb_request = request, lb_exc = exc,
      error_level = (if status_code exc < 500 then ''WARN'' else ''ERROR''),
      lb_status_code = status_code exc, lb_detail = detail exc\<rparr>"

definition validation_exception_handler :: "request \<Rightarrow> py_exception \<Rightarrow> log_and_build_response" where
  "validation_exception_handler request exc =
     \<lparr>lb_request = request, lb_exc = exc, error_level = ''WARN'', lb_status_code = 422,
      lb_detail = JObj [(''message'', JStr ''Validation error''),
                        (''errors'', errors exc)]\<rparr>"

definition global_exception_handler :: "request \<Rightarrow> py_exception \<Rightarrow> log_and_build_response" where
  "global_exception_handler request exc =
     \<lparr>lb_request = request, lb_exc = exc, error_level = ''FATAL'', lb_status_code = 500,
      lb_detail = JStr ''Internal server error''\<rparr>"

text \<open>
  The decorators of lines 193, 204 and 218 register one handler per exception class. The
  handlers of \<^verbatim>\<open>StarletteHTTPException\<close> and \<^verbatim>\<open>RequestValidationError\<close> answer the exceptions
  raised by the routes, inside \<^verbatim>\<open>call_next\<close>. An exception that leaves \<^verbatim>\<open>http_middleware\<close>
  is raised outside of them and, whatever its class, is answered by the handler registered
  for \<^verbatim>\<open>Exception\<close>: \<open>exception_handler\<close> is the handler that answers an exception raised
  by the middleware.
\<close>

definition exception_handler :: "request \<Rightarrow> py_exception \<Rightarrow> log_and_build_response" where
  "exception_handler request exc = global_exception_handler request exc"

section \<open>Sequences of calls\<close>

text \<open>
  A call is the state in which the cache is found, the two clock readings and the request.
  \<open>results\<close> runs the middleware on each call of a list.
\<close>

type_synonym 'c call = "'c \<times> (real \<times> real) \<times> request"

type_synonym 'c result = "(py_exception + response) \<times> 'c \<times> event list"

definition results :: "'c env \<Rightarrow> 'c call list \<Rightarrow> 'c result list" where
  "results env calls = map (\<lambda>(cache, perf, request). http_middleware env cache perf request) calls"

text \<open>
  What a call returns when its request passes the rate check with the count \<open>new_value\<close>:
  the body has been checked (lines 126 to 143), the counter is written with the window as
  its time to live, the handler is called, and its response is annotated and recorded by
  the monitor (lines 172 to 190), or its exception goes through.
\<close>

definition passing_call :: "'c env \<Rightarrow> 'c \<Rightarrow> real \<times> real \<Rightarrow> request \<Rightarrow> int \<Rightarrow> 'c result" where
  "passing_call env cache perf request new_value =
    (case body_size_check env request of
       Inl exc \<Rightarrow> (Inl exc, cache, [])
     | Inr request \<Rightarrow>
         let key = ''rate_limit:'' @ get_client_identifier env request;
             cache = cache_set env cache key new_value (WINDOW env);
             called = [CacheGet key, CacheSet key new_value (WINDOW env), CallNext request]
         in (case call_next env request of
               Inl exc \<Rightarrow> (Inl exc, cache, called)
             | Inr response \<Rightarrow>
                 (Inr (annotate env perf request new_value response), cache,
                  called @ [IncrementRequest (response_time_ms perf)])))"

text \<open>The values passed to \<^verbatim>\<open>cache.set\<close> for a key during a call, and whether the handler ran.\<close>

fun written :: "string \<Rightarrow> event list \<Rightarrow> int list" where
  "written key [] = []"
| "written key (CacheSet k v ttl # evs) = (if k = key then v # written key evs else written key evs)"
| "written key (e # evs) = written key evs"

fun handler_ran :: "event list \<Rightarrow> bool" where
  "handler_ran [] = False"
| "handler_ran (CallNext request # evs) = True"
| "handler_ran (e # evs) = handler_ran evs"

fun monitor_updated :: "event list \<Rightarrow> bool" where
  "monitor_updated [] = False"
| "monitor_updated (IncrementRequest ms # evs) = True"
| "monitor_updated (e # evs) = monitor_updated evs"

text \<open>
  The cache returns for the key, at each call of the list, exactly the last value written
  for it: \<open>latest\<close> is the last value written before the first call of the list (\<open>None\<close>
  when there is none).
\<close>

fun reads_last_written :: "'c env \<Rightarrow> string \<Rightarrow> int option \<Rightarrow> 'c call list \<Rightarrow> bool" where
  "reads_last_written env key latest [] = True"
| "reads_last_written env key latest ((cache, perf, request) # calls) =
     (cache_get env cache key = latest \<and>
      reads_last_written env key
        (case written key (snd (snd (http_middleware env cache perf request))) of
           [] \<Rightarrow> latest
         | v # vs \<Rightarrow> Some (last (v # vs)))
        calls)"

text \<open>
  The request enters the pipeline (its path is not one of line 119), passes the body size
  check and comes from the client with the given identifier.
\<close>

definition rate_checked :: "'c env \<Rightarrow> string \<Rightarrow> request \<Rightarrow> bool" where
  "rate_checked env identifier request =
    (path request \<notin> set [''/docs'', ''/redoc'', ''/openapi.json''] \<and>
     (case body_size_check env request of
        Inl exc \<Rightarrow> False
      | Inr request' \<Rightarrow> get_client_identifier env request' = identifier))"

text \<open>
  What the cache returns for the key of a client once its counter has been written \<open>k\<close>
  times in a row, each call reading what the call before it wrote.
\<close>

definition count_read :: "nat \<Rightarrow> int option" where
  "count_read k = (if k = 0 then None else Some (int k))"

text \<open>The handler returns a response for the request, rather than raising.\<close>

definition handled :: "'c env \<Rightarrow> request \<Rightarrow> bool" where
  "handled env request =
    (case body_size_check env request of
       Inl exc \<Rightarrow> False
     | Inr request' \<Rightarrow> (case call_next env request' of Inl exc \<Rightarrow> False | Inr response \<Rightarrow> True))"

text \<open>The header \<^verbatim>\<open>X-RateLimit-Remaining\<close> of the response of a call, if there is a response.\<close>

definition remaining_header :: "'c result \<Rightarrow> string option" where
  "remaining_header r =
    (case fst r of Inl exc \<Rightarrow> None | Inr response \<Rightarrow> headers response ''X-RateLimit-Remaining'')"

text \<open>
  \<^verbatim>\<open>middleware.add_security_headers\<close> is not part of \<^verbatim>\<open>src/main.py\<close>; it is called after the
  rate limit headers are set. This is the property that it leaves those three headers as
  they are.
\<close>

definition keeps_rate_limit_headers :: "'c env \<Rightarrow> bool" where
  "keeps_rate_limit_headers env =
    (\<forall>request response name.
       name \<in> set [''X-RateLimit-Limit'', ''X-RateLimit-Remaining'', ''X-RateLimit-Reset''] \<longrightarrow>
       headers (add_security_headers env request response) name = headers response name)"

section \<open>The expiring cache\<close>

text \<open>
  Modelled from the spec: the class \<^verbatim>\<open>RedisLikeCache\<close> of \<^verbatim>\<open>src/cache.py\<close> is not among the
  sources. Section 3 of the specification: the cache maps a key to an entry made of a value
  and an expiration deadline. The state also holds the time the cache reads from its clock.
\<close>

record RedisLikeCache =
  now :: real
  entries :: "string \<rightharpoonup> int \<times> real"

text \<open>
  Modelled from the spec: \<^verbatim>\<open>RedisLikeCache.get\<close>, missing as above. Section 4.1: the value of
  the key, or absent when there is no entry or its deadline has passed; an entry read once
  its time to live has elapsed is absent.
\<close>

definition RedisLikeCache_get :: "RedisLikeCache \<Rightarrow> string \<Rightarrow> int option" where
  "RedisLikeCache_get cache key =
    (case entries cache key of
       None \<Rightarrow> None
     | Some (v, expires_at) \<Rightarrow> if expires_at \<le> now cache then None else Some v)"

text \<open>
  Modelled from the spec: \<^verbatim>\<open>RedisLikeCache.set\<close>, missing as above. Section 4.1: the value is
  stored with \<^verbatim>\<open>expires_at = now + ttl_seconds\<close>, overwriting the entry of the key.
\<close>

definition RedisLikeCache_set :: "RedisLikeCache \<Rightarrow> string \<Rightarrow> int \<Rightarrow> int \<Rightarrow> RedisLikeCache" where
  "RedisLikeCache_set cache key v ttl_seconds =
     cache\<lparr>entries := (entries cache)(key \<mapsto> (v, now cache + real_of_int ttl_seconds))\<rparr>"

text \<open>
  Calls made one after the other on one cache: each call comes \<open>delay\<close> seconds after the
  one before it, and finds the cache as that call left it.
\<close>

fun serve :: "RedisLikeCache env \<Rightarrow> RedisLikeCache \<Rightarrow> (real \<times> (real \<times> real) \<times> request) list \<Rightarrow>
    RedisLikeCache result list" where
  "serve env cache [] = []"
| "serve env cache ((delay, perf, request) # calls) =
     (let result = http_middleware env (cache\<lparr>now := now cache + delay\<rparr>) perf request
      in result # serve env (fst (snd result)) calls)"

text \<open>
  The same calls when each of them passes the rate check, the call number \<open>k\<close> with the
  count \<open>k + 1\<close>.
\<close>

fun serve_passing :: "RedisLikeCache env \<Rightarrow> nat \<Rightarrow> RedisLikeCache \<Rightarrow>
    (real \<times> (real \<times> real) \<times> request) list \<Rightarrow> RedisLikeCache result list" where
  "serve_passing env k cache [] = []"
| "serve_passing env k cache ((delay, perf, request) # calls) =
     (let result = passing_call env (cache\<lparr>now := now cache + delay\<rparr>) perf request (int k + 1)
      in result # serve_passing env (Suc k) (fst (snd result)) calls)"

section \<open>An example configuration\<close>

definition example_env :: "RedisLikeCache env" where
  "example_env =
     \<lparr>MAX_BODY_SIZE = 1048576, MAX_REQUESTS = 5, WINDOW = 60,
      cache_get = RedisLikeCache_get, cache_set = RedisLikeCache_set,
      get_client_identifier = client,
      call_next = (\<lambda>request. Inr \<lparr>status = 200, headers = Map.empty, content = ''ok''\<rparr>),
      add_security_headers = (\<lambda>request. set_header ''X-Content-Type-Options'' ''nosniff''),
      format_2f = (\<lambda>ms. ''0.00'')\<rparr>"

definition example_request :: request where
  "example_request =
     \<lparr>path = ''/shorten'', req_headers = [''content-length'' \<mapsto> ''17''], stream = [],
      req_body = None, client = ''10.0.0.1''\<rparr>"

definition empty_cache :: RedisLikeCache where
  "empty_cache = \<lparr>now = 0, entries = Map.empty\<rparr>"

text \<open>The cache at time \<open>t\<close> in which the counter of the example client holds \<open>n\<close> until \<open>e\<close>.\<close>

definition counting :: "real \<Rightarrow> int \<Rightarrow> real \<Rightarrow> RedisLikeCache" where
  "counting t n e = \<lparr>now = t, entries = [''rate_limit:10.0.0.1'' \<mapsto> (n, e)]\<rparr>"

section \<open>Control flow of the middleware\<close>

lemma middleware_bypass:
  "path request \<in> set [''/docs'', ''/redoc'', ''/openapi.json''] \<Longrightarrow>
   http_middleware env cache perf request = (call_next env request, cache, [CallNext request])"
  by (simp add: http_middleware_def)

lemma middleware_size_rejected:
  "path request \<notin> set [''/docs'', ''/redoc'', ''/openapi.json''] \<Longrightarrow>
   body_size_check env request = Inl exc \<Longrightarrow>
   http_middleware env cache perf request = (Inl exc, cache, [])"
  by (simp add: http_middleware_def)

lemma middleware_rate_rejected:
  "path request \<notin> set [''/docs'', ''/redoc'', ''/openapi.json''] \<Longrightarrow>
   body_size_check env request = Inr request' \<Longrightarrow>
   incremented (cache_get env cache (''rate_limit:'' @ get_client_identifier env request'))
     > MAX_REQUESTS env \<Longrightarrow>
   http_middleware env cache perf request =
     (Inl (too_many_requests env), cache,
      [CacheGet (''rate_limit:'' @ get_client_identifier env request')])"
  by (simp add: http_middleware_def Let_def)

lemma middleware_allowed:
  "path request \<notin> set [''/docs'', ''/redoc'', ''/openapi.json''] \<Longrightarrow>
   body_size_check env request = Inr request' \<Longrightarrow>
   key = ''rate_limit:'' @ get_client_identifier env request' \<Longrightarrow>
   n = incremented (cache_get env cache key) \<Longrightarrow>
   n \<le> MAX_REQUESTS env \<Longrightarrow>
   http_middleware env cache perf request =
     (case call_next env request' of
        Inl exc \<Rightarrow>
          (Inl exc, cache_set env cache key n (WINDOW env),
           [CacheGet key, CacheSet key n (WINDOW env), CallNext request'])
      | Inr response \<Rightarrow>
          (Inr (annotate env perf request' n response), cache_set env cache key n (WINDOW env),
           [CacheGet key, CacheSet key n (WINDOW env), CallNext request',
            IncrementRequest (response_time_ms perf)]))"
  by (simp add: http_middleware_def Let_def split: sum.splits)


lemma body_size_check_declared:
  "req_headers request ''content-length'' = Some cl \<Longrightarrow> cl \<noteq> [] \<Longrightarrow>
   body_size_check env request =
     (case py_int cl of
        None \<Rightarrow> Inl ValueError
      | Some n \<Rightarrow> if n > MAX_BODY_SIZE env then Inl (request_too_large env) else Inr request)"
  by (simp add: body_size_check_def)

lemmas example_defs = example_env_def example_request_def empty_cache_def counting_def
lemmas py_int_defs = py_int_def underscores_ok_def is_digit_def py_isspace_def digit_val_def
  int_max_str_digits_def
lemmas str_defs = str_def str_nat.simps digit_chr_def


section \<open>The two conversions agree\<close>

text \<open>
  \<^verbatim>\<open>int\<close> accepts a non-empty string of at most 4300 digits and refuses a longer one,
  \<^verbatim>\<open>int(str(i))\<close> is \<open>i\<close> for every integer that \<^verbatim>\<open>int\<close> can read back, and the decimal
  rendering determines the number.
\<close>

lemma digit_chr_cases:
  assumes "d < (10::nat)"
  shows "d \<in> {0, 1, 2, 3, 4, 5, 6, 7, 8, 9}"
  using assms by auto

lemma str_nat_nonempty: "str_nat n \<noteq> []"
  by (subst str_nat.simps) simp

lemma digit_chr_digit: "d < 10 \<Longrightarrow> is_digit (digit_chr d) \<and> digit_val (digit_chr d) = d"
  by (drule digit_chr_cases) (auto simp add: digit_chr_def is_digit_def digit_val_def)

lemma is_digit_plain:
  assumes "is_digit c"
  shows "\<not> py_isspace c" and "c \<noteq> CHR ''_''" and "c \<noteq> CHR ''+''" and "c \<noteq> CHR ''-''"
  using assms by (auto simp add: is_digit_def py_isspace_def)

lemma str_nat_digits: "list_all is_digit (str_nat n)"
proof (induction n rule: str_nat.induct)
  case (1 n)
  show ?case
  proof (cases "n < 10")
    case True
    then show ?thesis
      by (subst str_nat.simps) (simp add: digit_chr_digit)
  next
    case False
    with "1" show ?thesis
      by (subst str_nat.simps) (simp add: digit_chr_digit)
  qed
qed

lemma str_nat_value: "foldl (\<lambda>a c. 10 * a + digit_val c) 0 (str_nat n) = n"
proof (induction n rule: str_nat.induct)
  case (1 n)
  show ?case
  proof (cases "n < 10")
    case True
    then show ?thesis
      by (subst str_nat.simps) (simp add: digit_chr_digit)
  next
    case False
    with "1" show ?thesis
      by (subst str_nat.simps) (simp add: digit_chr_digit)
  qed
qed

lemma scan_underscores_digits:
  "list_all is_digit s \<Longrightarrow> prev \<noteq> CHR ''_'' \<Longrightarrow> scan_underscores prev s"
  by (induction s arbitrary: prev) (auto simp add: is_digit_plain)

lemma digits_token:
  assumes "s \<noteq> []" and "list_all is_digit s"
  shows "takeWhile (\<lambda>c. is_digit c \<or> c = CHR ''_'') s = s"
    and "dropWhile (\<lambda>c. is_digit c \<or> c = CHR ''_'') s = []"
    and "underscores_ok s"
    and "filter is_digit s = s"
    and "is_digit (hd s)"
proof -
  from assms(2) have all: "\<forall>x\<in>set s. is_digit x \<or> x = CHR ''_''"
    by (simp add: list_all_iff)
  from all show "takeWhile (\<lambda>c. is_digit c \<or> c = CHR ''_'') s = s"
    by simp
  from all show "dropWhile (\<lambda>c. is_digit c \<or> c = CHR ''_'') s = []"
    by simp
  from assms show first: "is_digit (hd s)"
    by (cases s) simp_all
  with assms show "underscores_ok s"
    by (simp add: underscores_ok_def scan_underscores_digits is_digit_plain)
  from assms(2) show "filter is_digit s = s"
    by (simp add: list_all_iff)
qed

lemma py_int_digits:
  assumes "s \<noteq> []" and "list_all is_digit s" and "length s \<le> int_max_str_digits"
  shows "py_int s = Some (int (foldl (\<lambda>a c. 10 * a + digit_val c) 0 s))"
proof -
  note token = digits_token [OF assms(1,2)]
  from assms(1) token(5) have "dropWhile py_isspace s = s"
    by (cases s) (simp_all add: is_digit_plain)
  with assms(1,3) show ?thesis
    by (simp add: py_int_def Let_def token(1-4) is_digit_plain [OF token(5)])
qed

lemma py_int_too_long:
  assumes "list_all is_digit s" and "length s > int_max_str_digits"
  shows "py_int s = None"
proof -
  from assms(2) have "s \<noteq> []"
    by auto
  note token = digits_token [OF this assms(1)]
  from \<open>s \<noteq> []\<close> token(5) have "dropWhile py_isspace s = s"
    by (cases s) (simp_all add: is_digit_plain)
  with assms(2) show ?thesis
    by (simp add: py_int_def Let_def token(1-4) is_digit_plain [OF token(5)])
qed

lemma length_str_nat: "n < 10 ^ k \<Longrightarrow> 0 < k \<Longrightarrow> length (str_nat n) \<le> k"
proof (induction n arbitrary: k rule: str_nat.induct)
  case (1 n)
  show ?case
  proof (cases "n < 10")
    case True
    with "1.prems" show ?thesis
      by (subst str_nat.simps) simp
  next
    case False
    from "1.prems" obtain j where k: "k = Suc j"
      by (cases k) auto
    with False "1.prems" have j: "0 < j"
      by (cases j) auto
    from "1.prems" k have "n div 10 < 10 ^ j"
      by (simp add: less_mult_imp_div_less mult.commute)
    from "1.IH" [OF False this j] False k show ?thesis
      by (subst str_nat.simps) simp
  qed
qed

lemma py_int_str:
  assumes "\<bar>i\<bar> < 10 ^ int_max_str_digits"
  shows "py_int (str i) = Some i"
proof -
  from assms have "nat \<bar>i\<bar> < 10 ^ int_max_str_digits"
    by (simp add: nat_less_iff)
  then have len: "length (str_nat (nat \<bar>i\<bar>)) \<le> int_max_str_digits"
    by (rule length_str_nat) (simp add: int_max_str_digits_def)
  show ?thesis
  proof (cases "i < 0")
    case False
    with len show ?thesis
      by (simp add: str_def py_int_digits str_nat_nonempty str_nat_digits str_nat_value)
  next
    case True
    note token = digits_token [OF str_nat_nonempty str_nat_digits, of "nat (- i)"]
    have "\<not> py_isspace (CHR ''-'')"
      by (simp add: py_isspace_def)
    with True len show ?thesis
      by (simp add: str_def py_int_def Let_def token(1-4) str_nat_value)
  qed
qed

lemma str_nat_inject: "str_nat m = str_nat n \<longleftrightarrow> m = n"
proof
  assume "str_nat m = str_nat n"
  then have "foldl (\<lambda>a c. 10 * a + digit_val c) 0 (str_nat m)
      = foldl (\<lambda>a c. 10 * a + digit_val c) 0 (str_nat n)"
    by simp
  then show "m = n"
    by (simp add: str_nat_value)
qed simp

lemma str_nat_no_sign: "str_nat n \<noteq> CHR ''-'' # s"
proof
  assume "str_nat n = CHR ''-'' # s"
  with digits_token(5) [OF str_nat_nonempty str_nat_digits, of n] have "is_digit (CHR ''-'')"
    by simp
  then show False
    by (simp add: is_digit_def)
qed

lemma str_sign: "str i = str j \<Longrightarrow> i < 0 \<Longrightarrow> j < 0"
proof (rule ccontr)
  assume eq: "str i = str j" and neg: "i < 0" and "\<not> j < 0"
  then have "str_nat (nat j) = CHR ''-'' # str_nat (nat (- i))"
    by (simp add: str_def)
  with str_nat_no_sign show False
    by blast
qed

lemma str_inject: "str i = str j \<longleftrightarrow> i = j"
proof
  assume eq: "str i = str j"
  show "i = j"
  proof (cases "i < 0")
    case True
    with eq have "j < 0"
      by (rule str_sign)
    with True eq have "nat (- i) = nat (- j)"
      by (simp add: str_def str_nat_inject)
    with True \<open>j < 0\<close> show ?thesis
      by simp
  next
    case False
    with eq str_sign [of j i] have "\<not> j < 0"
      by auto
    with False eq have "nat i = nat j"
      by (simp add: str_def str_nat_inject)
    with False \<open>\<not> j < 0\<close> show ?thesis
      by simp
  qed
qed simp

lemma str_sixty: "str i = ''60'' \<longleftrightarrow> i = 60"
proof -
  have "str 60 = ''60''"
    by (simp add: str_defs)
  with str_inject [of i 60] show ?thesis
    by simp
qed

section \<open>The body size check comes first\<close>



lemma example_size_ok: "body_size_check example_env example_request = Inr example_request"
  by (simp add: body_size_check_def example_defs py_int_defs)

lemma example_path: "path example_request \<notin> set [''/docs'', ''/redoc'', ''/openapi.json'']"
  by (simp add: example_request_def)

section \<open>Rejection by the rate limiter\<close>

text \<open>
  Claim C2. When the count read from the cache for the rate limit key of the client equals
  \<^verbatim>\<open>MAX_REQUESTS\<close>, the incremented count exceeds \<^verbatim>\<open>MAX_REQUESTS\<close> and the middleware
  raises the exception of status 429 whose detail has the fields \<^verbatim>\<open>error\<close>,
  \<^verbatim>\<open>message\<close>, \<^verbatim>\<open>retry_after\<close>, \<^verbatim>\<open>limit\<close> and \<^verbatim>\<open>window\<close> and whose headers are
  \<^verbatim>\<open>Retry-After\<close>, \<^verbatim>\<open>X-RateLimit-Limit\<close>, \<^verbatim>\<open>X-RateLimit-Remaining\<close> with the value
  \<^verbatim>\<open>0\<close>, and \<^verbatim>\<open>X-RateLimit-Reset\<close>; the handler is not called.
\<close>

theorem limit_reached_rejected:
  assumes "path request \<notin> set [''/docs'', ''/redoc'', ''/openapi.json'']"
      and "body_size_check env request = Inr request'"
      and "cache_get env cache (''rate_limit:'' @ get_client_identifier env request')
             = Some (MAX_REQUESTS env)"
  shows "incremented (Some (MAX_REQUESTS env)) > MAX_REQUESTS env \<and>
         (\<exists>d h evs.
            http_middleware env cache perf request =
              (Inl (HTTPException 429 (JObj d) (Some h)), cache, evs) \<and>
            map fst d = [''error'', ''message'', ''retry_after'', ''limit'', ''window''] \<and>
            map fst h = [''Retry-After'', ''X-RateLimit-Limit'', ''X-RateLimit-Remaining'',
                         ''X-RateLimit-Reset''] \<and>
            map_of h ''X-RateLimit-Remaining'' = Some ''0'' \<and>
            \<not> handler_ran evs)"
proof -
  have exceeds: "incremented (Some (MAX_REQUESTS env)) > MAX_REQUESTS env"
    by (simp add: incremented_def)
  with assms have "http_middleware env cache perf request =
      (Inl (too_many_requests env), cache,
       [CacheGet (''rate_limit:'' @ get_client_identifier env request')])"
    by (simp add: middleware_rate_rejected)
  with exceeds show ?thesis
    by (simp add: too_many_requests_def)
qed

theorem limit_reached_rejected_witness:
  "path example_request \<notin> set [''/docs'', ''/redoc'', ''/openapi.json''] \<and>
   body_size_check example_env example_request = Inr example_request \<and>
   cache_get example_env (counting 0 5 60)
       (''rate_limit:'' @ get_client_identifier example_env example_request)
     = Some (MAX_REQUESTS example_env) \<and>
   incremented (Some (MAX_REQUESTS example_env)) > MAX_REQUESTS example_env \<and>
   (\<exists>d h evs.
      http_middleware example_env (counting 0 5 60) (0, 1) example_request =
        (Inl (HTTPException 429 (JObj d) (Some h)), counting 0 5 60, evs) \<and>
      map fst d = [''error'', ''message'', ''retry_after'', ''limit'', ''window''] \<and>
      map fst h = [''Retry-After'', ''X-RateLimit-Limit'', ''X-RateLimit-Remaining'',
                   ''X-RateLimit-Reset''] \<and>
      map_of h ''X-RateLimit-Remaining'' = Some ''0'' \<and>
      \<not> handler_ran evs)"
proof -
  have c: "cache_get example_env (counting 0 5 60)
       (''rate_limit:'' @ get_client_identifier example_env example_request)
     = Some (MAX_REQUESTS example_env)"
    by (simp add: example_defs RedisLikeCache_get_def)
  show ?thesis
    using limit_reached_rejected [OF example_path example_size_ok c, of "(0, 1)"]
      example_path example_size_ok c
    by simp
qed

section \<open>A rejected call does not write the counter\<close>

lemma example_oversized:
  "body_size_check example_env (example_request\<lparr>req_headers := [''content-length'' \<mapsto> ''1048577'']\<rparr>)
     = Inl (request_too_large example_env)"
  by (simp add: body_size_check_def example_defs py_int_defs)

lemma example_full:
  "incremented (cache_get example_env (counting 0 5 60)
      (''rate_limit:'' @ get_client_identifier example_env example_request))
     > MAX_REQUESTS example_env"
  by (simp add: example_defs RedisLikeCache_get_def incremented_def)

text \<open>
  Claim C3, as stated: on a call whose incremented count exceeds \<^verbatim>\<open>MAX_REQUESTS\<close> the
  incremented value is written to the cache before the rejection. With the limit 5 and the
  counter at 5 the call is rejected, but it has only read the cache: nothing is written
  and the counter still holds 5.
\<close>

theorem rejected_call_writes_counterexample:
  "incremented (cache_get example_env (counting 0 5 60) ''rate_limit:10.0.0.1'') = 6 \<and>
   MAX_REQUESTS example_env = 5 \<and>
   http_middleware example_env (counting 0 5 60) (0, 1) example_request =
     (Inl (too_many_requests example_env), counting 0 5 60, [CacheGet ''rate_limit:10.0.0.1'']) \<and>
   written ''rate_limit:10.0.0.1''
     (snd (snd (http_middleware example_env (counting 0 5 60) (0, 1) example_request))) = [] \<and>
   cache_get example_env
     (fst (snd (http_middleware example_env (counting 0 5 60) (0, 1) example_request)))
     ''rate_limit:10.0.0.1'' = Some 5"
proof -
  have "http_middleware example_env (counting 0 5 60) (0, 1) example_request =
     (Inl (too_many_requests example_env), counting 0 5 60,
      [CacheGet (''rate_limit:'' @ get_client_identifier example_env example_request)])"
    by (rule middleware_rate_rejected [OF example_path example_size_ok example_full])
  then show ?thesis
    by (simp add: example_defs RedisLikeCache_get_def incremented_def)
qed

text \<open>
  Claim C3, amended: on a call whose incremented count exceeds \<^verbatim>\<open>MAX_REQUESTS\<close> the
  middleware rejects with status 429 without writing to the cache: \<^verbatim>\<open>cache.get\<close> is the
  only call made, and the cache is left as the call found it, so a rejected request
  consumes no slot.
\<close>

theorem rejected_call_leaves_cache:
  assumes "path request \<notin> set [''/docs'', ''/redoc'', ''/openapi.json'']"
      and "body_size_check env request = Inr request'"
      and "incremented (cache_get env cache (''rate_limit:'' @ get_client_identifier env request'))
             > MAX_REQUESTS env"
  shows "\<exists>d h. http_middleware env cache perf request =
           (Inl (HTTPException 429 d h), cache,
            [CacheGet (''rate_limit:'' @ get_client_identifier env request')])"
  using assms by (simp add: middleware_rate_rejected too_many_requests_def)

theorem rejected_call_leaves_cache_witness:
  "path example_request \<notin> set [''/docs'', ''/redoc'', ''/openapi.json''] \<and>
   body_size_check example_env example_request = Inr example_request \<and>
   incremented (cache_get example_env (counting 0 5 60)
       (''rate_limit:'' @ get_client_identifier example_env example_request))
     > MAX_REQUESTS example_env \<and>
   (\<exists>d h. http_middleware example_env (counting 0 5 60) (0, 1) example_request =
      (Inl (HTTPException 429 d h), counting 0 5 60,
       [CacheGet (''rate_limit:'' @ get_client_identifier example_env example_request)]))"
  using rejected_call_leaves_cache [OF example_path example_size_ok example_full, of "(0, 1)"]
    example_path example_size_ok example_full
  by simp

section \<open>Rejections and the monitor\<close>

text \<open>
  Claim C4, as stated: for a request rejected at the size check or at the rate check, no
  handler is invoked and \<^verbatim>\<open>increment_request\<close> of the monitor is still called. A request
  that declares 1048577 bytes against a limit of 1048576 is rejected with 413, and a
  request of a client whose counter is at the limit is rejected with 429; in both calls
  the monitor is not updated.
\<close>

theorem rejections_recorded_counterexample:
  "fst (http_middleware example_env empty_cache (0, 1)
          (example_request\<lparr>req_headers := [''content-length'' \<mapsto> ''1048577'']\<rparr>))
     = Inl (HTTPException 413 (JStr ''Request entity too large. Max allowed: 1048576 bytes'') None) \<and>
   \<not> monitor_updated (snd (snd (http_middleware example_env empty_cache (0, 1)
          (example_request\<lparr>req_headers := [''content-length'' \<mapsto> ''1048577'']\<rparr>)))) \<and>
   fst (http_middleware example_env (counting 0 5 60) (0, 1) example_request)
     = Inl (too_many_requests example_env) \<and>
   \<not> monitor_updated (snd (snd (http_middleware example_env (counting 0 5 60) (0, 1) example_request)))"
proof -
  have a: "path (example_request\<lparr>req_headers := [''content-length'' \<mapsto> ''1048577'']\<rparr>)
      \<notin> set [''/docs'', ''/redoc'', ''/openapi.json'']"
    by (simp add: example_request_def)
  have e: "str (MAX_BODY_SIZE example_env) = ''1048576''"
    by (simp add: example_env_def str_defs)
  show ?thesis
    by (simp add: middleware_size_rejected [OF a example_oversized]
        middleware_rate_rejected [OF example_path example_size_ok example_full]
        request_too_large_def e)
qed

text \<open>
  Claim C4, amended: for a request rejected at the size check (413) or at the rate check
  (429), no handler is invoked and \<^verbatim>\<open>increment_request\<close> of the monitor is not called:
  the exception leaves the middleware before the monitor update of line 188.
\<close>

theorem rejections_skip_handler_and_monitor:
  assumes "path request \<notin> set [''/docs'', ''/redoc'', ''/openapi.json'']"
      and "body_size_check env request = Inl (request_too_large env) \<or>
           (\<exists>request'. body_size_check env request = Inr request' \<and>
              incremented (cache_get env cache (''rate_limit:'' @ get_client_identifier env request'))
                > MAX_REQUESTS env)"
  shows "(fst (http_middleware env cache perf request) = Inl (request_too_large env) \<or>
          fst (http_middleware env cache perf request) = Inl (too_many_requests env)) \<and>
         \<not> handler_ran (snd (snd (http_middleware env cache perf request))) \<and>
         \<not> monitor_updated (snd (snd (http_middleware env cache perf request)))"
  using assms by (auto simp add: middleware_size_rejected middleware_rate_rejected)

theorem rejections_skip_handler_and_monitor_witness:
  "(fst (http_middleware example_env empty_cache (0, 1)
          (example_request\<lparr>req_headers := [''content-length'' \<mapsto> ''1048577'']\<rparr>))
      = Inl (request_too_large example_env) \<and>
    \<not> handler_ran (snd (snd (http_middleware example_env empty_cache (0, 1)
          (example_request\<lparr>req_headers := [''content-length'' \<mapsto> ''1048577'']\<rparr>)))) \<and>
    \<not> monitor_updated (snd (snd (http_middleware example_env empty_cache (0, 1)
          (example_request\<lparr>req_headers := [''content-length'' \<mapsto> ''1048577'']\<rparr>))))) \<and>
   (fst (http_middleware example_env (counting 0 5 60) (0, 1) example_request)
      = Inl (too_many_requests example_env) \<and>
    \<not> handler_ran (snd (snd (http_middleware example_env (counting 0 5 60) (0, 1) example_request))) \<and>
    \<not> monitor_updated (snd (snd (http_middleware example_env (counting 0 5 60) (0, 1) example_request))))"
proof -
  have a: "path (example_request\<lparr>req_headers := [''content-length'' \<mapsto> ''1048577'']\<rparr>)
      \<notin> set [''/docs'', ''/redoc'', ''/openapi.json'']"
    by (simp add: example_request_def)
  have b: "\<exists>request'. body_size_check example_env example_request = Inr request' \<and>
      incremented (cache_get example_env (counting 0 5 60)
        (''rate_limit:'' @ get_client_identifier example_env request')) > MAX_REQUESTS example_env"
    using example_size_ok example_full by simp
  have size_case: "body_size_check example_env
        (example_request\<lparr>req_headers := [''content-length'' \<mapsto> ''1048577'']\<rparr>)
      = Inl (request_too_large example_env)"
    by (rule example_oversized)
  have rate_case: "fst (http_middleware example_env (counting 0 5 60) (0, 1) example_request)
      = Inl (too_many_requests example_env)"
    by (simp add: middleware_rate_rejected [OF example_path example_size_ok example_full])
  have size_out: "fst (http_middleware example_env empty_cache (0, 1)
          (example_request\<lparr>req_headers := [''content-length'' \<mapsto> ''1048577'']\<rparr>))
      = Inl (request_too_large example_env)"
    by (simp add: middleware_size_rejected [OF a example_oversized])
  show ?thesis
    using rejections_skip_handler_and_monitor [OF a disjI1 [OF size_case], of empty_cache "(0, 1)"]
      rejections_skip_handler_and_monitor [OF example_path disjI2 [OF b], of "(0, 1)"]
      size_out rate_case
    by simp
qed

section \<open>The message of the rate limit rejection\<close>

text \<open>
  Claim C9. In every configuration the detail of the 429 rejection has the fixed message
  \<^verbatim>\<open>Rate limit exceeded. Try again in 60 seconds.\<close>, while its field \<^verbatim>\<open>retry_after\<close> and
  the header \<^verbatim>\<open>Retry-After\<close> are \<^verbatim>\<open>WINDOW\<close> written in decimal, which is not \<^verbatim>\<open>60\<close>
  whenever \<^verbatim>\<open>WINDOW\<close> is not 60.
\<close>

theorem rejection_message_fixed:
  assumes "path request \<notin> set [''/docs'', ''/redoc'', ''/openapi.json'']"
      and "body_size_check env request = Inr request'"
      and "incremented (cache_get env cache (''rate_limit:'' @ get_client_identifier env request'))
             > MAX_REQUESTS env"
  shows "\<exists>e l w h.
           fst (http_middleware env cache perf request) =
             Inl (HTTPException 429
                    (JObj [(''error'', e),
                           (''message'', JStr ''Rate limit exceeded. Try again in 60 seconds.''),
                           (''retry_after'', JStr (str (WINDOW env))),
                           (''limit'', l), (''window'', w)])
                    (Some h)) \<and>
           map_of h ''Retry-After'' = Some (str (WINDOW env)) \<and>
           (WINDOW env \<noteq> 60 \<longrightarrow> str (WINDOW env) \<noteq> ''60'')"
  using assms by (simp add: middleware_rate_rejected too_many_requests_def str_sixty)

theorem rejection_message_fixed_witness:
  "path example_request \<notin> set [''/docs'', ''/redoc'', ''/openapi.json''] \<and>
   body_size_check (example_env\<lparr>WINDOW := 30\<rparr>) example_request = Inr example_request \<and>
   incremented (cache_get (example_env\<lparr>WINDOW := 30\<rparr>) (counting 0 5 30)
       (''rate_limit:'' @ get_client_identifier (example_env\<lparr>WINDOW := 30\<rparr>) example_request))
     > MAX_REQUESTS (example_env\<lparr>WINDOW := 30\<rparr>) \<and>
   (\<exists>e l w h.
      fst (http_middleware (example_env\<lparr>WINDOW := 30\<rparr>) (counting 0 5 30) (0, 1) example_request) =
        Inl (HTTPException 429
               (JObj [(''error'', e),
                      (''message'', JStr ''Rate limit exceeded. Try again in 60 seconds.''),
                      (''retry_after'', JStr ''30''),
                      (''limit'', l), (''window'', w)])
               (Some h)) \<and>
      map_of h ''Retry-After'' = Some ''30'') \<and>
   WINDOW (example_env\<lparr>WINDOW := 30\<rparr>) \<noteq> 60 \<and>
   str (WINDOW (example_env\<lparr>WINDOW := 30\<rparr>)) \<noteq> ''60''"
proof -
  have b: "body_size_check (example_env\<lparr>WINDOW := 30\<rparr>) example_request = Inr example_request"
    by (simp add: body_size_check_def example_defs py_int_defs)
  have c: "incremented (cache_get (example_env\<lparr>WINDOW := 30\<rparr>) (counting 0 5 30)
       (''rate_limit:'' @ get_client_identifier (example_env\<lparr>WINDOW := 30\<rparr>) example_request))
     > MAX_REQUESTS (example_env\<lparr>WINDOW := 30\<rparr>)"
    by (simp add: example_defs RedisLikeCache_get_def incremented_def)
  have s: "str (WINDOW (example_env\<lparr>WINDOW := 30\<rparr>)) = ''30''"
    by (simp add: str_defs)
  show ?thesis
    using rejection_message_fixed [OF example_path b c, of "(0, 1)"] example_path b c s
    by simp
qed

section \<open>A content length that is not an integer\<close>

text \<open>
  Claim C10. The size check converts the header with \<^verbatim>\<open>int\<close> and catches nothing: for a
  request that carries a non-empty \<^verbatim>\<open>content-length\<close> which \<^verbatim>\<open>int\<close> does not accept, the
  middleware raises \<^verbatim>\<open>ValueError\<close>, not an exception of status 413 or 400; it has made no
  call on the cache or the handler, and the exception is answered by the handler
  registered for \<^verbatim>\<open>Exception\<close>, with status 500 and \<^verbatim>\<open>Internal server error\<close>.
\<close>

theorem invalid_content_length_raises:
  assumes "path request \<notin> set [''/docs'', ''/redoc'', ''/openapi.json'']"
      and "req_headers request ''content-length'' = Some content_length"
      and "content_length \<noteq> []"
      and "py_int content_length = None"
  shows "http_middleware env cache perf request = (Inl ValueError, cache, []) \<and>
         exception_handler request ValueError = global_exception_handler request ValueError \<and>
         lb_status_code (exception_handler request ValueError) = 500 \<and>
         lb_detail (exception_handler request ValueError) = JStr ''Internal server error''"
proof -
  from assms(2-4) have "body_size_check env request = Inl ValueError"
    by (simp add: body_size_check_declared)
  with assms(1) show ?thesis
    by (simp add: middleware_size_rejected exception_handler_def global_exception_handler_def)
qed

theorem invalid_content_length_raises_witness:
  "path (example_request\<lparr>req_headers := [''content-length'' \<mapsto> ''12abc'']\<rparr>)
      \<notin> set [''/docs'', ''/redoc'', ''/openapi.json''] \<and>
   req_headers (example_request\<lparr>req_headers := [''content-length'' \<mapsto> ''12abc'']\<rparr>) ''content-length''
      = Some ''12abc'' \<and>
   ''12abc'' \<noteq> [] \<and>
   py_int ''12abc'' = None \<and>
   http_middleware example_env (counting 0 3 60) (0, 1)
       (example_request\<lparr>req_headers := [''content-length'' \<mapsto> ''12abc'']\<rparr>)
     = (Inl ValueError, counting 0 3 60, []) \<and>
   lb_status_code (exception_handler
       (example_request\<lparr>req_headers := [''content-length'' \<mapsto> ''12abc'']\<rparr>) ValueError) = 500"
proof -
  have a: "path (example_request\<lparr>req_headers := [''content-length'' \<mapsto> ''12abc'']\<rparr>)
      \<notin> set [''/docs'', ''/redoc'', ''/openapi.json'']"
    by (simp add: example_request_def)
  have b: "req_headers (example_request\<lparr>req_headers := [''content-length'' \<mapsto> ''12abc'']\<rparr>)
      ''content-length'' = Some ''12abc''"
    by simp
  have c: "''12abc'' \<noteq> []"
    by simp
  have d: "py_int ''12abc'' = None"
    by (simp add: py_int_defs)
  show ?thesis
    using invalid_content_length_raises [OF a b c d, of example_env "counting 0 3 60" "(0, 1)"] a d
    by (simp add: global_exception_handler_def)
qed

section \<open>The paths that bypass the pipeline\<close>

lemma middleware_pipeline_events:
  assumes "path request \<notin> set [''/docs'', ''/redoc'', ''/openapi.json'']"
  shows "snd (snd (http_middleware env cache perf request)) \<noteq> [CallNext request]"
  using assms
  by (simp add: http_middleware_def Let_def split: sum.splits)

text \<open>
  Claim C7, as stated: exactly two paths bypass the pipeline. Three different paths do:
  a request to each of them that declares a body above the limit is handed to the handler,
  and nothing else is called.
\<close>

theorem two_bypass_paths_counterexample:
  "distinct [''/docs'', ''/redoc'', ''/openapi.json''] \<and>
   MAX_BODY_SIZE example_env < 1048577 \<and>
   py_int ''1048577'' = Some 1048577 \<and>
   http_middleware example_env empty_cache (0, 1)
       (example_request\<lparr>path := ''/docs'', req_headers := [''content-length'' \<mapsto> ''1048577'']\<rparr>) =
     (call_next example_env
        (example_request\<lparr>path := ''/docs'', req_headers := [''content-length'' \<mapsto> ''1048577'']\<rparr>),
      empty_cache,
      [CallNext (example_request\<lparr>path := ''/docs'', req_headers := [''content-length'' \<mapsto> ''1048577'']\<rparr>)]) \<and>
   http_middleware example_env empty_cache (0, 1)
       (example_request\<lparr>path := ''/redoc'', req_headers := [''content-length'' \<mapsto> ''1048577'']\<rparr>) =
     (call_next example_env
        (example_request\<lparr>path := ''/redoc'', req_headers := [''content-length'' \<mapsto> ''1048577'']\<rparr>),
      empty_cache,
      [CallNext (example_request\<lparr>path := ''/redoc'', req_headers := [''content-length'' \<mapsto> ''1048577'']\<rparr>)]) \<and>
   http_middleware example_env empty_cache (0, 1)
       (example_request\<lparr>path := ''/openapi.json'', req_headers := [''content-length'' \<mapsto> ''1048577'']\<rparr>) =
     (call_next example_env
        (example_request\<lparr>path := ''/openapi.json'', req_headers := [''content-length'' \<mapsto> ''1048577'']\<rparr>),
      empty_cache,
      [CallNext (example_request\<lparr>path := ''/openapi.json'', req_headers := [''content-length'' \<mapsto> ''1048577'']\<rparr>)])"
proof -
  have "py_int ''1048577'' = Some 1048577"
    by (simp add: py_int_defs)
  moreover have "MAX_BODY_SIZE example_env < 1048577"
    by (simp add: example_env_def)
  ultimately show ?thesis
    by (simp add: middleware_bypass)
qed

text \<open>
  Claim C7, amended: exactly three paths, \<^verbatim>\<open>/docs\<close>, \<^verbatim>\<open>/redoc\<close> and \<^verbatim>\<open>/openapi.json\<close>,
  bypass the pipeline: the request goes straight to the handler, whose result is returned
  as it is, and nothing else is called. For every other path the pipeline runs: the size
  check first; unless it raises, the rate limiter; unless it rejects, the write of the
  counter and the handler; and when the handler returns a response, the header annotation
  and the monitor update.
\<close>

theorem three_bypass_paths:
  "card {''/docs'', ''/redoc'', ''/openapi.json''} = 3 \<and>
   (http_middleware env cache perf request = (call_next env request, cache, [CallNext request])
      \<longleftrightarrow> path request \<in> {''/docs'', ''/redoc'', ''/openapi.json''}) \<and>
   (path request \<notin> {''/docs'', ''/redoc'', ''/openapi.json''} \<longrightarrow>
      (case body_size_check env request of
         Inl exc \<Rightarrow> http_middleware env cache perf request = (Inl exc, cache, [])
       | Inr request' \<Rightarrow>
           (let key = ''rate_limit:'' @ get_client_identifier env request';
                n = incremented (cache_get env cache key)
            in if n > MAX_REQUESTS env then
                 http_middleware env cache perf request =
                   (Inl (too_many_requests env), cache, [CacheGet key])
               else
                 (case call_next env request' of
                    Inl exc \<Rightarrow>
                      http_middleware env cache perf request =
                        (Inl exc, cache_set env cache key n (WINDOW env),
                         [CacheGet key, CacheSet key n (WINDOW env), CallNext request'])
                  | Inr response \<Rightarrow>
                      http_middleware env cache perf request =
                        (Inr (annotate env perf request' n response),
                         cache_set env cache key n (WINDOW env),
                         [CacheGet key, CacheSet key n (WINDOW env), CallNext request',
                          IncrementRequest (response_time_ms perf)])))))"
proof (intro conjI)
  show "card {''/docs'', ''/redoc'', ''/openapi.json''} = 3"
    by simp
next
  show "http_middleware env cache perf request = (call_next env request, cache, [CallNext request])
      \<longleftrightarrow> path request \<in> {''/docs'', ''/redoc'', ''/openapi.json''}"
  proof
    assume eq: "http_middleware env cache perf request =
      (call_next env request, cache, [CallNext request])"
    show "path request \<in> {''/docs'', ''/redoc'', ''/openapi.json''}"
    proof (rule ccontr)
      assume "path request \<notin> {''/docs'', ''/redoc'', ''/openapi.json''}"
      then have "snd (snd (http_middleware env cache perf request)) \<noteq> [CallNext request]"
        by (intro middleware_pipeline_events) simp
      with eq show False
        by simp
    qed
  next
    assume "path request \<in> {''/docs'', ''/redoc'', ''/openapi.json''}"
    then show "http_middleware env cache perf request =
      (call_next env request, cache, [CallNext request])"
      by (intro middleware_bypass) simp
  qed
next
  show "path request \<notin> {''/docs'', ''/redoc'', ''/openapi.json''} \<longrightarrow>
      (case body_size_check env request of
         Inl exc \<Rightarrow> http_middleware env cache perf request = (Inl exc, cache, [])
       | Inr request' \<Rightarrow>
           (let key = ''rate_limit:'' @ get_client_identifier env request';
                n = incremented (cache_get env cache key)
            in if n > MAX_REQUESTS env then
                 http_middleware env cache perf request =
                   (Inl (too_many_requests env), cache, [CacheGet key])
               else
                 (case call_next env request' of
                    Inl exc \<Rightarrow>
                      http_middleware env cache perf request =
                        (Inl exc, cache_set env cache key n (WINDOW env),
                         [CacheGet key, CacheSet key n (WINDOW env), CallNext request'])
                  | Inr response \<Rightarrow>
                      http_middleware env cache perf request =
                        (Inr (annotate env perf request' n response),
                         cache_set env cache key n (WINDOW env),
                         [CacheGet key, CacheSet key n (WINDOW env), CallNext request',
                          IncrementRequest (response_time_ms perf)]))))"
    by (simp add: http_middleware_def Let_def split: sum.splits)
qed


theorem three_bypass_paths_witness:
  "path (example_request\<lparr>path := ''/redoc''\<rparr>) \<in> {''/docs'', ''/redoc'', ''/openapi.json''} \<and>
   http_middleware example_env empty_cache (0, 1) (example_request\<lparr>path := ''/redoc''\<rparr>) =
     (call_next example_env (example_request\<lparr>path := ''/redoc''\<rparr>), empty_cache,
      [CallNext (example_request\<lparr>path := ''/redoc''\<rparr>)]) \<and>
   path example_request \<notin> {''/docs'', ''/redoc'', ''/openapi.json''} \<and>
   http_middleware example_env empty_cache (0, 1) example_request \<noteq>
     (call_next example_env example_request, empty_cache, [CallNext example_request]) \<and>
   http_middleware example_env empty_cache (0, 1) example_request =
     (Inr (annotate example_env (0, 1) example_request 1
             \<lparr>status = 200, headers = Map.empty, content = ''ok''\<rparr>),
      cache_set example_env empty_cache ''rate_limit:10.0.0.1'' 1 60,
      [CacheGet ''rate_limit:10.0.0.1'', CacheSet ''rate_limit:10.0.0.1'' 1 60,
       CallNext example_request, IncrementRequest 1000])"
proof -
  have a: "path (example_request\<lparr>path := ''/redoc''\<rparr>) \<in> {''/docs'', ''/redoc'', ''/openapi.json''}"
    by simp
  have b: "path example_request \<notin> {''/docs'', ''/redoc'', ''/openapi.json''}"
    by (simp add: example_request_def)
  have c: "incremented (cache_get example_env empty_cache ''rate_limit:10.0.0.1'') = 1"
    by (simp add: example_defs RedisLikeCache_get_def incremented_def)
  have d: "get_client_identifier example_env example_request = ''10.0.0.1''"
      "MAX_REQUESTS example_env = 5" "WINDOW example_env = 60"
      "call_next example_env example_request = Inr \<lparr>status = 200, headers = Map.empty, content = ''ok''\<rparr>"
    by (simp_all add: example_defs)
  show ?thesis
    using three_bypass_paths [of example_env empty_cache "(0, 1)" "example_request\<lparr>path := ''/redoc''\<rparr>"]
      three_bypass_paths [of example_env empty_cache "(0, 1)" example_request]
      a b c d example_size_ok
    by (simp add: response_time_ms_def Let_def)
qed

section \<open>Counting the calls of one client\<close>

lemma rate_checkedE:
  assumes "rate_checked env identifier request"
  obtains request' where "path request \<notin> set [''/docs'', ''/redoc'', ''/openapi.json'']"
    and "body_size_check env request = Inr request'"
    and "get_client_identifier env request' = identifier"
  using assms by (auto simp add: rate_checked_def split: sum.splits)

lemma incremented_count_read: "incremented (count_read k) = int k + 1"
  by (simp add: incremented_def count_read_def)

lemma counted_call:
  assumes "rate_checked env identifier request"
      and "cache_get env cache (''rate_limit:'' @ identifier) = count_read k"
      and "int k < MAX_REQUESTS env"
  shows "written (''rate_limit:'' @ identifier) (snd (snd (http_middleware env cache perf request)))
           = [int k + 1] \<and>
         handler_ran (snd (snd (http_middleware env cache perf request))) \<and>
         fst (snd (http_middleware env cache perf request))
           = cache_set env cache (''rate_limit:'' @ identifier) (int k + 1) (WINDOW env)"
proof -
  from assms(1) obtain request' where
    p: "path request \<notin> set [''/docs'', ''/redoc'', ''/openapi.json'']" and
    b: "body_size_check env request = Inr request'" and
    i: "get_client_identifier env request' = identifier"
    by (rule rate_checkedE)
  have n: "int k + 1 = incremented (cache_get env cache (''rate_limit:'' @ identifier))"
    using assms(2) by (simp add: incremented_count_read)
  have le: "int k + 1 \<le> MAX_REQUESTS env"
    using assms(3) by simp
  have k: "''rate_limit:'' @ identifier = ''rate_limit:'' @ get_client_identifier env request'"
    by (simp add: i)
  show ?thesis
    unfolding middleware_allowed [OF p b k n le]
    by (cases "call_next env request'") simp_all
qed

lemma rejected_call:
  assumes "rate_checked env identifier request"
      and "cache_get env cache (''rate_limit:'' @ identifier) = count_read k"
      and "int k = MAX_REQUESTS env"
  shows "http_middleware env cache perf request =
           (Inl (too_many_requests env), cache, [CacheGet (''rate_limit:'' @ identifier)])"
proof -
  from assms(1) obtain request' where
    p: "path request \<notin> set [''/docs'', ''/redoc'', ''/openapi.json'']" and
    b: "body_size_check env request = Inr request'" and
    i: "get_client_identifier env request' = identifier"
    by (rule rate_checkedE)
  have "incremented (cache_get env cache (''rate_limit:'' @ get_client_identifier env request'))
      > MAX_REQUESTS env"
    using assms(2,3) i by (simp add: incremented_count_read)
  from middleware_rate_rejected [OF p b this] show ?thesis
    by (simp add: i)
qed

lemma reads_in_sequence:
  assumes "list_all (\<lambda>(cache, perf, request). rate_checked env identifier request) calls"
      and "reads_last_written env (''rate_limit:'' @ identifier) (count_read k) calls"
      and "int k \<le> MAX_REQUESTS env"
      and "i < length calls"
  shows "cache_get env (fst (calls ! i)) (''rate_limit:'' @ identifier)
           = count_read (min (k + i) (nat (MAX_REQUESTS env)))"
  using assms
proof (induction calls arbitrary: k i)
  case Nil
  then show ?case by simp
next
  case (Cons call calls)
  obtain cache perf request where call: "call = (cache, perf, request)"
    by (cases call) auto
  from Cons.prems(1) call have rc: "rate_checked env identifier request"
    and rest: "list_all (\<lambda>(cache, perf, request). rate_checked env identifier request) calls"
    by simp_all
  from Cons.prems(2) call have rd: "cache_get env cache (''rate_limit:'' @ identifier) = count_read k"
    by simp
  show ?case
  proof (cases i)
    case 0
    from Cons.prems(3) have "k \<le> nat (MAX_REQUESTS env)"
      by simp
    with 0 rd call show ?thesis
      by (simp add: min_absorb1)
  next
    case (Suc j)
    with Cons.prems(4) have j: "j < length calls"
      by simp
    show ?thesis
    proof (cases "int k < MAX_REQUESTS env")
      case True
      from counted_call [OF rc rd True, of perf]
      have "written (''rate_limit:'' @ identifier)
          (snd (snd (http_middleware env cache perf request))) = [int k + 1]"
        by simp
      with Cons.prems(2) call
      have "reads_last_written env (''rate_limit:'' @ identifier) (count_read (Suc k)) calls"
        by (simp add: count_read_def add.commute)
      from True have "int (Suc k) \<le> MAX_REQUESTS env"
        by simp
      from Cons.IH [OF rest \<open>reads_last_written env (''rate_limit:'' @ identifier) (count_read (Suc k)) calls\<close> this j]
        Suc show ?thesis
        by simp
    next
      case False
      with Cons.prems(3) have full: "int k = MAX_REQUESTS env"
        by simp
      from rejected_call [OF rc rd full, of perf] Cons.prems(2) call
      have "reads_last_written env (''rate_limit:'' @ identifier) (count_read k) calls"
        by simp
      from Cons.IH [OF rest this Cons.prems(3) j]
      have at_j: "cache_get env (fst (calls ! j)) (''rate_limit:'' @ identifier)
          = count_read (min (k + j) (nat (MAX_REQUESTS env)))" .
      from full have "nat (MAX_REQUESTS env) = k"
        by simp
      then have "min (k + j) (nat (MAX_REQUESTS env)) = min (k + i) (nat (MAX_REQUESTS env))"
        by simp
      with at_j Suc show ?thesis
        by simp
    qed
  qed
qed


lemma middleware_passing:
  assumes "rate_checked env identifier request"
      and "cache_get env cache (''rate_limit:'' @ identifier) = count_read k"
      and "int k < MAX_REQUESTS env"
  shows "http_middleware env cache perf request = passing_call env cache perf request (int k + 1)"
proof -
  from assms(1) obtain request' where
    p: "path request \<notin> set [''/docs'', ''/redoc'', ''/openapi.json'']" and
    b: "body_size_check env request = Inr request'" and
    i: "get_client_identifier env request' = identifier"
    by (rule rate_checkedE)
  have n: "int k + 1 = incremented (cache_get env cache (''rate_limit:'' @ identifier))"
    using assms(2) by (simp add: incremented_count_read)
  have le: "int k + 1 \<le> MAX_REQUESTS env"
    using assms(3) by simp
  have k: "''rate_limit:'' @ identifier = ''rate_limit:'' @ get_client_identifier env request'"
    by (simp add: i)
  show ?thesis
    unfolding middleware_allowed [OF p b k n le]
    using i by (simp add: passing_call_def b Let_def split: sum.splits)
qed

text \<open>
  Claim C1. For every sequence of at most \<^verbatim>\<open>MAX_REQUESTS\<close> requests of one client that
  reach the rate check, each processed with a cache that returns for the key of the client
  exactly the last value written for it (nothing before the first request): every request
  is allowed, that is, the call number \<open>i\<close>, counted from 0, returns what a call that
  passes the rate check with the count \<open>i + 1\<close> returns (the answer of the handler, the
  cache with the counter written, and the calls made), never the rejection; the value
  written by the call number \<open>i\<close> is \<open>i + 1\<close>, and the handler is called.
\<close>

theorem counts_increase_by_one:
  assumes "int (length calls) \<le> MAX_REQUESTS env"
      and "list_all (\<lambda>(cache, perf, request). rate_checked env identifier request) calls"
      and "reads_last_written env (''rate_limit:'' @ identifier) None calls"
  shows "results env calls
           = map (\<lambda>(i, cache, perf, request). passing_call env cache perf request (int i + 1))
               (enumerate 0 calls) \<and>
         map (\<lambda>r. written (''rate_limit:'' @ identifier) (snd (snd r))) (results env calls)
           = map (\<lambda>i. [int i + 1]) [0..<length calls] \<and>
         list_all (\<lambda>r. handler_ran (snd (snd r))) (results env calls)"
proof -
  have each: "results env calls ! i
        = (\<lambda>(i, cache, perf, request). passing_call env cache perf request (int i + 1))
            (enumerate 0 calls ! i) \<and>
      written (''rate_limit:'' @ identifier) (snd (snd (results env calls ! i))) = [int i + 1] \<and>
      handler_ran (snd (snd (results env calls ! i)))" if i: "i < length calls" for i
  proof -
    obtain cache perf request where call: "calls ! i = (cache, perf, request)"
      by (cases "calls ! i") auto
    from assms(2) i call have rc: "rate_checked env identifier request"
      by (auto simp add: list_all_length)
    from assms(3) have "reads_last_written env (''rate_limit:'' @ identifier) (count_read 0) calls"
      by (simp add: count_read_def)
    from reads_in_sequence [OF assms(2) this _ i] assms(1) i
    have "cache_get env (fst (calls ! i)) (''rate_limit:'' @ identifier) = count_read i"
      by (simp add: min_absorb1)
    with call have rd: "cache_get env cache (''rate_limit:'' @ identifier) = count_read i"
      by simp
    from assms(1) i have below: "int i < MAX_REQUESTS env"
      by simp
    from counted_call [OF rc rd below, of perf] middleware_passing [OF rc rd below, of perf] i call
    show ?thesis
      by (simp add: results_def nth_enumerate_eq)
  qed
  have len: "length (results env calls) = length calls"
    by (simp add: results_def)
  have "results env calls
      = map (\<lambda>(i, cache, perf, request). passing_call env cache perf request (int i + 1))
          (enumerate 0 calls)"
  proof (rule nth_equalityI)
    show "length (results env calls)
        = length (map (\<lambda>(i, cache, perf, request). passing_call env cache perf request (int i + 1))
            (enumerate 0 calls))"
      by (simp add: len)
  next
    fix i
    assume "i < length (results env calls)"
    then have i: "i < length calls"
      by (simp add: len)
    from each [OF i]
    have "results env calls ! i
        = (\<lambda>(i, cache, perf, request). passing_call env cache perf request (int i + 1))
            (enumerate 0 calls ! i)"
      by blast
    with i show "results env calls ! i
        = map (\<lambda>(i, cache, perf, request). passing_call env cache perf request (int i + 1))
            (enumerate 0 calls) ! i"
      by simp
  qed
  moreover have "map (\<lambda>r. written (''rate_limit:'' @ identifier) (snd (snd r))) (results env calls)
      = map (\<lambda>i. [int i + 1]) [0..<length calls]"
  proof (rule nth_equalityI)
    show "length (map (\<lambda>r. written (''rate_limit:'' @ identifier) (snd (snd r))) (results env calls))
        = length (map (\<lambda>i. [int i + 1]) [0..<length calls])"
      by (simp add: len)
  next
    fix i
    assume "i < length (map (\<lambda>r. written (''rate_limit:'' @ identifier) (snd (snd r)))
        (results env calls))"
    then have i: "i < length calls"
      by (simp add: len)
    from each [OF i]
    have "written (''rate_limit:'' @ identifier) (snd (snd (results env calls ! i))) = [int i + 1]"
      by blast
    with i show "map (\<lambda>r. written (''rate_limit:'' @ identifier) (snd (snd r)))
        (results env calls) ! i = map (\<lambda>i. [int i + 1]) [0..<length calls] ! i"
      by (simp add: len)
  qed
  moreover have "list_all (\<lambda>r. handler_ran (snd (snd r))) (results env calls)"
    unfolding list_all_length len using each by blast
  ultimately show ?thesis
    by blast
qed

lemma example_first_call:
  "http_middleware example_env (\<lparr>now = t, entries = Map.empty\<rparr>) perf example_request =
     (Inr (annotate example_env perf example_request 1
             \<lparr>status = 200, headers = Map.empty, content = ''ok''\<rparr>),
      counting t 1 (t + 60),
      [CacheGet ''rate_limit:10.0.0.1'', CacheSet ''rate_limit:10.0.0.1'' 1 60,
       CallNext example_request, IncrementRequest (response_time_ms perf)])"
proof -
  have k: "''rate_limit:10.0.0.1'' = ''rate_limit:'' @ get_client_identifier example_env example_request"
    by (simp add: example_defs)
  have n: "1 = incremented (cache_get example_env (\<lparr>now = t, entries = Map.empty\<rparr>) ''rate_limit:10.0.0.1'')"
    by (simp add: example_defs RedisLikeCache_get_def incremented_def)
  have le: "1 \<le> MAX_REQUESTS example_env"
    by (simp add: example_env_def)
  show ?thesis
    unfolding middleware_allowed [OF example_path example_size_ok k n le]
    by (simp add: example_defs RedisLikeCache_set_def)
qed

lemma example_next_call:
  assumes "t < e" and "0 < n" and "n < 5"
  shows "http_middleware example_env (counting t n e) perf example_request =
     (Inr (annotate example_env perf example_request (n + 1)
             \<lparr>status = 200, headers = Map.empty, content = ''ok''\<rparr>),
      counting t (n + 1) (t + 60),
      [CacheGet ''rate_limit:10.0.0.1'', CacheSet ''rate_limit:10.0.0.1'' (n + 1) 60,
       CallNext example_request, IncrementRequest (response_time_ms perf)])"
proof -
  have k: "''rate_limit:10.0.0.1'' = ''rate_limit:'' @ get_client_identifier example_env example_request"
    by (simp add: example_defs)
  have n: "n + 1 = incremented (cache_get example_env (counting t n e) ''rate_limit:10.0.0.1'')"
    using assms by (simp add: example_defs RedisLikeCache_get_def incremented_def)
  have le: "n + 1 \<le> MAX_REQUESTS example_env"
    using assms by (simp add: example_env_def)
  show ?thesis
    unfolding middleware_allowed [OF example_path example_size_ok k n le]
    by (simp add: example_defs RedisLikeCache_set_def)
qed

lemma example_rate_checked: "rate_checked example_env ''10.0.0.1'' example_request"
  using example_path example_size_ok
  by (simp add: rate_checked_def) (simp add: example_defs)

lemma example_passing_call:
  "passing_call example_env cache perf example_request n =
     (Inr (annotate example_env perf example_request n
             \<lparr>status = 200, headers = Map.empty, content = ''ok''\<rparr>),
      RedisLikeCache_set cache ''rate_limit:10.0.0.1'' n 60,
      [CacheGet ''rate_limit:10.0.0.1'', CacheSet ''rate_limit:10.0.0.1'' n 60,
       CallNext example_request, IncrementRequest (response_time_ms perf)])"
  by (simp add: passing_call_def example_size_ok Let_def) (simp add: example_defs)

theorem counts_increase_by_one_witness:
  "int (length [(empty_cache, (0::real, 1::real), example_request), (counting 10 1 60, (0, 1), example_request),
                (counting 20 2 70, (0, 1), example_request)]) \<le> MAX_REQUESTS example_env \<and>
   list_all (\<lambda>(cache, perf, request). rate_checked example_env ''10.0.0.1'' request)
     [(empty_cache, (0::real, 1::real), example_request), (counting 10 1 60, (0, 1), example_request),
      (counting 20 2 70, (0, 1), example_request)] \<and>
   reads_last_written example_env ''rate_limit:10.0.0.1'' None
     [(empty_cache, (0::real, 1::real), example_request), (counting 10 1 60, (0, 1), example_request),
      (counting 20 2 70, (0, 1), example_request)] \<and>
   results example_env
     [(empty_cache, (0::real, 1::real), example_request), (counting 10 1 60, (0, 1), example_request),
      (counting 20 2 70, (0, 1), example_request)]
     = [passing_call example_env empty_cache (0, 1) example_request 1,
        passing_call example_env (counting 10 1 60) (0, 1) example_request 2,
        passing_call example_env (counting 20 2 70) (0, 1) example_request 3] \<and>
   passing_call example_env (counting 20 2 70) (0, 1) example_request 3
     = (Inr (annotate example_env (0, 1) example_request 3
               \<lparr>status = 200, headers = Map.empty, content = ''ok''\<rparr>),
        counting 20 3 80,
        [CacheGet ''rate_limit:10.0.0.1'', CacheSet ''rate_limit:10.0.0.1'' 3 60,
         CallNext example_request, IncrementRequest 1000]) \<and>
   map (\<lambda>r. written ''rate_limit:10.0.0.1'' (snd (snd r)))
     (results example_env
        [(empty_cache, (0::real, 1::real), example_request), (counting 10 1 60, (0, 1), example_request),
         (counting 20 2 70, (0, 1), example_request)])
     = [[1], [2], [3]] \<and>
   list_all (\<lambda>r. handler_ran (snd (snd r)))
     (results example_env
        [(empty_cache, (0::real, 1::real), example_request), (counting 10 1 60, (0, 1), example_request),
         (counting 20 2 70, (0, 1), example_request)])"
proof -
  let ?calls = "[(empty_cache, (0::real, 1::real), example_request), (counting 10 1 60, (0, 1), example_request),
                (counting 20 2 70, (0, 1), example_request)]"
  have a: "int (length ?calls) \<le> MAX_REQUESTS example_env"
    by (simp add: example_env_def)
  have b: "list_all (\<lambda>(cache, perf, request). rate_checked example_env ''10.0.0.1'' request) ?calls"
    by (simp add: example_rate_checked)
  have get: "cache_get example_env empty_cache ''rate_limit:10.0.0.1'' = None"
      "cache_get example_env (counting 10 1 60) ''rate_limit:10.0.0.1'' = Some 1"
      "cache_get example_env (counting 20 2 70) ''rate_limit:10.0.0.1'' = Some 2"
    by (simp_all add: example_defs RedisLikeCache_get_def)
  have c: "reads_last_written example_env (''rate_limit:'' @ ''10.0.0.1'') None ?calls"
    by (simp add: get example_first_call [of 0, folded empty_cache_def] example_next_call)
  have upt: "[0..<3] = [0, 1, 2]"
    by (simp add: upt_rec)
  have third: "passing_call example_env (counting 20 2 70) (0, 1) example_request 3
     = (Inr (annotate example_env (0, 1) example_request 3
               \<lparr>status = 200, headers = Map.empty, content = ''ok''\<rparr>),
        counting 20 3 80,
        [CacheGet ''rate_limit:10.0.0.1'', CacheSet ''rate_limit:10.0.0.1'' 3 60,
         CallNext example_request, IncrementRequest 1000])"
    by (simp add: example_passing_call RedisLikeCache_set_def counting_def response_time_ms_def)
  show ?thesis
    using counts_increase_by_one [OF a b c] a b c third
    by (simp add: upt enumerate_eq_zip example_passing_call)
qed

section \<open>The rate limit headers of a response\<close>

lemma annotate_headers:
  assumes "keeps_rate_limit_headers env"
  shows "headers (annotate env perf request current response) ''X-RateLimit-Limit''
           = Some (str (MAX_REQUESTS env)) \<and>
         headers (annotate env perf request current response) ''X-RateLimit-Remaining''
           = Some (str (max (MAX_REQUESTS env - current) 0)) \<and>
         headers (annotate env perf request current response) ''X-RateLimit-Reset''
           = Some (str (WINDOW env))"
proof -
  from assms have keep:
    "headers (add_security_headers env rq rs) ''X-RateLimit-Limit'' = headers rs ''X-RateLimit-Limit''"
    "headers (add_security_headers env rq rs) ''X-RateLimit-Remaining'' = headers rs ''X-RateLimit-Remaining''"
    "headers (add_security_headers env rq rs) ''X-RateLimit-Reset'' = headers rs ''X-RateLimit-Reset''"
    for rq rs
    by (simp_all add: keeps_rate_limit_headers_def)
  show ?thesis
    by (simp add: annotate_def set_header_def Let_def keep)
qed

lemma allowed_call_remaining:
  assumes "keeps_rate_limit_headers env"
      and "rate_checked env identifier request"
      and "handled env request"
      and "cache_get env cache (''rate_limit:'' @ identifier) = count_read k"
      and "int k < MAX_REQUESTS env"
  shows "remaining_header (http_middleware env cache perf request)
           = Some (str (MAX_REQUESTS env - (int k + 1)))"
proof -
  from assms(2) obtain request' where
    p: "path request \<notin> set [''/docs'', ''/redoc'', ''/openapi.json'']" and
    b: "body_size_check env request = Inr request'" and
    i: "get_client_identifier env request' = identifier"
    by (rule rate_checkedE)
  from assms(3) b obtain response where r: "call_next env request' = Inr response"
    by (auto simp add: handled_def split: sum.splits)
  have n: "int k + 1 = incremented (cache_get env cache (''rate_limit:'' @ identifier))"
    using assms(4) by (simp add: incremented_count_read)
  have le: "int k + 1 \<le> MAX_REQUESTS env"
    using assms(5) by simp
  have k: "''rate_limit:'' @ identifier = ''rate_limit:'' @ get_client_identifier env request'"
    by (simp add: i)
  from le have "max (MAX_REQUESTS env - (int k + 1)) 0 = MAX_REQUESTS env - (int k + 1)"
    by simp
  with annotate_headers [OF assms(1), of perf request' "int k + 1" response] show ?thesis
    unfolding middleware_allowed [OF p b k n le]
    by (simp add: r remaining_header_def)
qed

lemma list_of_length_six:
  assumes "length xs = 6"
  obtains a b c d e f where "xs = [a, b, c, d, e, f]"
proof -
  from assms have "length xs = Suc (Suc (Suc (Suc (Suc (Suc 0)))))"
    by simp
  then obtain a b c d e f where "xs = [a, b, c, d, e, f]"
    by (auto simp add: length_Suc_conv)
  then show thesis ..
qed

text \<open>
  Claim C6. On every request that is allowed and answered, the response carries
  \<^verbatim>\<open>X-RateLimit-Limit\<close> equal to \<^verbatim>\<open>MAX_REQUESTS\<close>, \<^verbatim>\<open>X-RateLimit-Remaining\<close> equal to
  \<^verbatim>\<open>max(MAX_REQUESTS - current_count, 0)\<close> and \<^verbatim>\<open>X-RateLimit-Reset\<close> equal to \<^verbatim>\<open>WINDOW\<close>,
  the length of the window. With \<^verbatim>\<open>MAX_REQUESTS\<close> equal to 5, six requests of one client in
  a fresh window give the remaining values 4, 3, 2, 1, 0, and the sixth is rejected with
  status 429 and \<^verbatim>\<open>Retry-After\<close> equal to \<^verbatim>\<open>WINDOW\<close>. The security headers added after the
  rate limit headers are assumed to leave these alone.
\<close>

theorem rate_limit_headers:
  assumes "keeps_rate_limit_headers env"
  shows "(path request \<notin> set [''/docs'', ''/redoc'', ''/openapi.json''] \<and>
          body_size_check env request = Inr request' \<and>
          http_middleware env cache perf request = (Inr response, cache', evs) \<longrightarrow>
            headers response ''X-RateLimit-Limit'' = Some (str (MAX_REQUESTS env)) \<and>
            headers response ''X-RateLimit-Remaining''
              = Some (str (max (MAX_REQUESTS env - incremented (cache_get env cache
                   (''rate_limit:'' @ get_client_identifier env request'))) 0)) \<and>
            headers response ''X-RateLimit-Reset'' = Some (str (WINDOW env))) \<and>
         (MAX_REQUESTS env = 5 \<and> length calls = 6 \<and>
          list_all (\<lambda>(cache, perf, request).
            rate_checked env client_identifier request \<and> handled env request) calls \<and>
          reads_last_written env (''rate_limit:'' @ client_identifier) None calls \<longrightarrow>
            map remaining_header (take 5 (results env calls))
              = [Some ''4'', Some ''3'', Some ''2'', Some ''1'', Some ''0''] \<and>
            (\<exists>d h. fst (results env calls ! 5) = Inl (HTTPException 429 d (Some h)) \<and>
               map_of h ''Retry-After'' = Some (str (WINDOW env))))"
proof (intro conjI impI)
  assume a: "path request \<notin> set [''/docs'', ''/redoc'', ''/openapi.json''] \<and>
          body_size_check env request = Inr request' \<and>
          http_middleware env cache perf request = (Inr response, cache', evs)"
  let ?n = "incremented (cache_get env cache (''rate_limit:'' @ get_client_identifier env request'))"
  from a have p: "path request \<notin> set [''/docs'', ''/redoc'', ''/openapi.json'']"
    and b: "body_size_check env request = Inr request'"
    and r: "http_middleware env cache perf request = (Inr response, cache', evs)"
    by simp_all
  have le: "?n \<le> MAX_REQUESTS env"
  proof (rule ccontr)
    assume "\<not> ?n \<le> MAX_REQUESTS env"
    then have "?n > MAX_REQUESTS env"
      by simp
    from middleware_rate_rejected [OF p b this, of perf] r show False
      by simp
  qed
  from r have "response = annotate env perf request' ?n response'"
    if "call_next env request' = Inr response'" for response'
    unfolding middleware_allowed [OF p b refl refl le] using that by simp
  moreover from r obtain response' where "call_next env request' = Inr response'"
    unfolding middleware_allowed [OF p b refl refl le]
    by (cases "call_next env request'") simp_all
  ultimately have resp: "response = annotate env perf request' ?n response'"
    by simp
  from annotate_headers [OF assms, of perf request' ?n response'] resp
  show "headers response ''X-RateLimit-Limit'' = Some (str (MAX_REQUESTS env))"
    and "headers response ''X-RateLimit-Remaining'' = Some (str (max (MAX_REQUESTS env - ?n) 0))"
    and "headers response ''X-RateLimit-Reset'' = Some (str (WINDOW env))"
    by simp_all
next
  assume s: "MAX_REQUESTS env = 5 \<and> length calls = 6 \<and>
          list_all (\<lambda>(cache, perf, request).
            rate_checked env client_identifier request \<and> handled env request) calls \<and>
          reads_last_written env (''rate_limit:'' @ client_identifier) None calls"
  then have mx: "MAX_REQUESTS env = 5" and len: "length calls = 6"
    and ok: "list_all (\<lambda>(cache, perf, request).
            rate_checked env client_identifier request \<and> handled env request) calls"
    and rl: "reads_last_written env (''rate_limit:'' @ client_identifier) (count_read 0) calls"
    by (simp_all add: count_read_def)
  from ok have rc: "list_all (\<lambda>(cache, perf, request). rate_checked env client_identifier request) calls"
    by (auto simp add: list_all_iff)
  have reads: "cache_get env (fst (calls ! i)) (''rate_limit:'' @ client_identifier) = count_read i"
    if "i < 6" for i
  proof -
    from that len have "i < length calls"
      by simp
    from reads_in_sequence [OF rc rl _ this] mx that show ?thesis
      by (simp add: min_absorb1)
  qed
  have allowed: "remaining_header (results env calls ! i) = Some (str (5 - (int i + 1)))"
    if "i < 5" for i
  proof -
    obtain cache perf request where call: "calls ! i = (cache, perf, request)"
      by (cases "calls ! i") auto
    from that len have i: "i < length calls"
      by simp
    with ok call have "rate_checked env client_identifier request" and "handled env request"
      by (auto simp add: list_all_length)
    moreover from reads [of i] that call
    have "cache_get env cache (''rate_limit:'' @ client_identifier) = count_read i"
      by simp
    moreover from that mx have "int i < MAX_REQUESTS env"
      by simp
    ultimately have "remaining_header (http_middleware env cache perf request)
        = Some (str (MAX_REQUESTS env - (int i + 1)))"
      by (intro allowed_call_remaining [OF assms])
    with i call mx show ?thesis
      by (simp add: results_def)
  qed
  from len obtain a b c d e f where calls: "calls = [a, b, c, d, e, f]"
    by (rule list_of_length_six)
  have "map remaining_header (take 5 (results env calls))
      = map (\<lambda>i. remaining_header (results env calls ! i)) [0, 1, 2, 3, 4]"
    by (simp add: calls results_def)
  also have "\<dots> = [Some ''4'', Some ''3'', Some ''2'', Some ''1'', Some ''0'']"
    by (simp add: allowed str_defs)
  finally show "map remaining_header (take 5 (results env calls))
      = [Some ''4'', Some ''3'', Some ''2'', Some ''1'', Some ''0'']" .
  obtain cache perf request where call: "calls ! 5 = (cache, perf, request)"
    by (cases "calls ! 5") auto
  from rc len have "(\<lambda>(cache, perf, request). rate_checked env client_identifier request) (calls ! 5)"
    by (simp add: list_all_length)
  with call have "rate_checked env client_identifier request"
    by simp
  moreover from reads [of 5] call
  have "cache_get env cache (''rate_limit:'' @ client_identifier) = count_read 5"
    by simp
  moreover from mx have "int 5 = MAX_REQUESTS env"
    by simp
  ultimately have "http_middleware env cache perf request =
      (Inl (too_many_requests env), cache, [CacheGet (''rate_limit:'' @ client_identifier)])"
    by (rule rejected_call)
  with call len have "fst (results env calls ! 5) = Inl (too_many_requests env)"
    by (simp add: results_def)
  then show "\<exists>d h. fst (results env calls ! 5) = Inl (HTTPException 429 d (Some h)) \<and>
      map_of h ''Retry-After'' = Some (str (WINDOW env))"
    by (simp add: too_many_requests_def)
qed


lemma example_keeps: "keeps_rate_limit_headers example_env"
  by (simp add: keeps_rate_limit_headers_def example_env_def set_header_def)

lemma example_handled: "handled example_env example_request"
  by (simp add: handled_def example_size_ok) (simp add: example_env_def)

theorem rate_limit_headers_witness:
  "keeps_rate_limit_headers example_env \<and>
   path example_request \<notin> set [''/docs'', ''/redoc'', ''/openapi.json''] \<and>
   body_size_check example_env example_request = Inr example_request \<and>
   http_middleware example_env (counting 2 2 61) (0, 1) example_request =
     (Inr (annotate example_env (0, 1) example_request 3
             \<lparr>status = 200, headers = Map.empty, content = ''ok''\<rparr>),
      counting 2 3 62,
      [CacheGet ''rate_limit:10.0.0.1'', CacheSet ''rate_limit:10.0.0.1'' 3 60,
       CallNext example_request, IncrementRequest 1000]) \<and>
   headers (annotate example_env (0, 1) example_request 3
              \<lparr>status = 200, headers = Map.empty, content = ''ok''\<rparr>) ''X-RateLimit-Limit''
     = Some ''5'' \<and>
   headers (annotate example_env (0, 1) example_request 3
              \<lparr>status = 200, headers = Map.empty, content = ''ok''\<rparr>) ''X-RateLimit-Remaining''
     = Some ''2'' \<and>
   headers (annotate example_env (0, 1) example_request 3
              \<lparr>status = 200, headers = Map.empty, content = ''ok''\<rparr>) ''X-RateLimit-Reset''
     = Some ''60'' \<and>
   MAX_REQUESTS example_env = 5 \<and>
   list_all (\<lambda>(cache, perf, request).
       rate_checked example_env ''10.0.0.1'' request \<and> handled example_env request)
     [(empty_cache, (0::real, 1::real), example_request), (counting 1 1 60, (0, 1), example_request),
      (counting 2 2 61, (0, 1), example_request), (counting 3 3 62, (0, 1), example_request),
      (counting 4 4 63, (0, 1), example_request), (counting 5 5 64, (0, 1), example_request)] \<and>
   reads_last_written example_env ''rate_limit:10.0.0.1'' None
     [(empty_cache, (0::real, 1::real), example_request), (counting 1 1 60, (0, 1), example_request),
      (counting 2 2 61, (0, 1), example_request), (counting 3 3 62, (0, 1), example_request),
      (counting 4 4 63, (0, 1), example_request), (counting 5 5 64, (0, 1), example_request)] \<and>
   map remaining_header (take 5 (results example_env
     [(empty_cache, (0::real, 1::real), example_request), (counting 1 1 60, (0, 1), example_request),
      (counting 2 2 61, (0, 1), example_request), (counting 3 3 62, (0, 1), example_request),
      (counting 4 4 63, (0, 1), example_request), (counting 5 5 64, (0, 1), example_request)]))
     = [Some ''4'', Some ''3'', Some ''2'', Some ''1'', Some ''0''] \<and>
   (\<exists>d h. fst (results example_env
       [(empty_cache, (0::real, 1::real), example_request), (counting 1 1 60, (0, 1), example_request),
        (counting 2 2 61, (0, 1), example_request), (counting 3 3 62, (0, 1), example_request),
        (counting 4 4 63, (0, 1), example_request), (counting 5 5 64, (0, 1), example_request)] ! 5)
       = Inl (HTTPException 429 d (Some h)) \<and>
     map_of h ''Retry-After'' = Some ''60'')"
proof -
  let ?calls = "[(empty_cache, (0::real, 1::real), example_request), (counting 1 1 60, (0, 1), example_request),
      (counting 2 2 61, (0, 1), example_request), (counting 3 3 62, (0, 1), example_request),
      (counting 4 4 63, (0, 1), example_request), (counting 5 5 64, (0, 1), example_request)]"
  let ?response = "annotate example_env (0, 1) example_request 3
      \<lparr>status = 200, headers = Map.empty, content = ''ok''\<rparr>"
  have third: "http_middleware example_env (counting 2 2 61) (0, 1) example_request =
     (Inr ?response, counting 2 3 62,
      [CacheGet ''rate_limit:10.0.0.1'', CacheSet ''rate_limit:10.0.0.1'' 3 60,
       CallNext example_request, IncrementRequest 1000])"
    using example_next_call [of 2 61 2 "(0, 1)"] by (simp add: response_time_ms_def)
  have vals: "MAX_REQUESTS example_env = 5" "WINDOW example_env = 60"
      "get_client_identifier example_env example_request = ''10.0.0.1''"
    by (simp_all add: example_defs)
  have strs: "str 5 = ''5''" "str 60 = ''60''" "str 2 = ''2''"
    by (simp_all add: str_defs)
  have rd: "cache_get example_env (counting 2 2 61) ''rate_limit:10.0.0.1'' = Some 2"
    by (simp add: example_defs RedisLikeCache_get_def)
  have ok: "list_all (\<lambda>(cache, perf, request).
       rate_checked example_env ''10.0.0.1'' request \<and> handled example_env request) ?calls"
    by (simp add: example_rate_checked example_handled)
  have get: "cache_get example_env empty_cache ''rate_limit:10.0.0.1'' = None"
      "cache_get example_env (counting 1 1 60) ''rate_limit:10.0.0.1'' = Some 1"
      "cache_get example_env (counting 2 2 61) ''rate_limit:10.0.0.1'' = Some 2"
      "cache_get example_env (counting 3 3 62) ''rate_limit:10.0.0.1'' = Some 3"
      "cache_get example_env (counting 4 4 63) ''rate_limit:10.0.0.1'' = Some 4"
      "cache_get example_env (counting 5 5 64) ''rate_limit:10.0.0.1'' = Some 5"
    by (simp_all add: example_defs RedisLikeCache_get_def)
  have rl: "reads_last_written example_env (''rate_limit:'' @ ''10.0.0.1'') None ?calls"
    by (simp add: get example_first_call [of 0, folded empty_cache_def] example_next_call)
  show ?thesis
    using rate_limit_headers [OF example_keeps,
        where request = example_request and request' = example_request
          and cache = "counting 2 2 61" and perf = "(0, 1)" and response = ?response
          and cache' = "counting 2 3 62"
          and evs = "[CacheGet ''rate_limit:10.0.0.1'', CacheSet ''rate_limit:10.0.0.1'' 3 60,
              CallNext example_request, IncrementRequest 1000]"
          and calls = ?calls and client_identifier = "''10.0.0.1''"]
      example_keeps example_path example_size_ok third vals strs rd ok rl
    by (simp add: incremented_def)
qed

section \<open>The expiration deadline of the counter\<close>

lemma map_upt_Suc: "map f [0..<Suc n] = f 0 # map (\<lambda>i. f (Suc i)) [0..<n]"
proof -
  have "[0..<Suc n] = 0 # map Suc [0..<n]"
    by (simp only: map_Suc_upt upt_conv_Cons zero_less_Suc)
  then show ?thesis
    by (simp only: list.map map_map o_def)
qed

lemma live_entry_read:
  assumes "entries cache key = (if k = 0 then None else Some (int k, now cache + real_of_int w))"
      and "delay < real_of_int w"
  shows "RedisLikeCache_get (cache\<lparr>now := now cache + delay\<rparr>) key = count_read k"
  using assms by (simp add: RedisLikeCache_get_def count_read_def)

lemma serve_counts:
  assumes "cache_get env = RedisLikeCache_get" and "cache_set env = RedisLikeCache_set"
      and "list_all (\<lambda>(delay, perf, request).
             rate_checked env identifier request \<and> delay < real_of_int (WINDOW env)) calls"
      and "entries cache (''rate_limit:'' @ identifier)
             = (if k = 0 then None else Some (int k, now cache + real_of_int (WINDOW env)))"
      and "int (k + length calls) \<le> MAX_REQUESTS env"
  shows "map (\<lambda>r. written (''rate_limit:'' @ identifier) (snd (snd r))) (serve env cache calls)
           = map (\<lambda>i. [int (k + i) + 1]) [0..<length calls]"
  using assms(3-5)
proof (induction calls arbitrary: cache k)
  case Nil
  then show ?case by simp
next
  case (Cons call calls)
  obtain delay perf request where call: "call = (delay, perf, request)"
    by (cases call) auto
  let ?key = "''rate_limit:'' @ identifier"
  let ?arrived = "cache\<lparr>now := now cache + delay\<rparr>"
  let ?result = "http_middleware env ?arrived perf request"
  from Cons.prems(1) call have rc: "rate_checked env identifier request"
    and soon: "delay < real_of_int (WINDOW env)"
    and rest: "list_all (\<lambda>(delay, perf, request).
             rate_checked env identifier request \<and> delay < real_of_int (WINDOW env)) calls"
    by simp_all
  from live_entry_read [OF Cons.prems(2) soon]
  have rd: "cache_get env ?arrived ?key = count_read k"
    by (simp add: assms(1))
  from Cons.prems(3) have below: "int k < MAX_REQUESTS env"
    by simp
  from counted_call [OF rc rd below, of perf]
  have wr: "written ?key (snd (snd ?result)) = [int k + 1]"
    and st: "fst (snd ?result) = cache_set env ?arrived ?key (int k + 1) (WINDOW env)"
    by simp_all
  from st have entry: "entries (fst (snd ?result)) ?key
      = (if Suc k = 0 then None
         else Some (int (Suc k), now (fst (snd ?result)) + real_of_int (WINDOW env)))"
    by (simp add: assms(2) RedisLikeCache_set_def add.commute)
  from Cons.prems(3) have "int (Suc k + length calls) \<le> MAX_REQUESTS env"
    by simp
  from Cons.IH [OF rest entry this]
  have "map (\<lambda>r. written ?key (snd (snd r))) (serve env (fst (snd ?result)) calls)
      = map (\<lambda>i. [int (k + Suc i) + 1]) [0..<length calls]"
    by simp
  with wr call show ?case
    by (simp only: serve.simps Let_def list.map length_Cons map_upt_Suc add_0_right)
qed


lemma serve_passes:
  assumes "cache_get env = RedisLikeCache_get" and "cache_set env = RedisLikeCache_set"
      and "list_all (\<lambda>(delay, perf, request).
             rate_checked env identifier request \<and> delay < real_of_int (WINDOW env)) calls"
      and "entries cache (''rate_limit:'' @ identifier)
             = (if k = 0 then None else Some (int k, now cache + real_of_int (WINDOW env)))"
      and "int (k + length calls) \<le> MAX_REQUESTS env"
  shows "serve env cache calls = serve_passing env k cache calls"
  using assms(3-5)
proof (induction calls arbitrary: cache k)
  case Nil
  then show ?case by simp
next
  case (Cons call calls)
  obtain delay perf request where call: "call = (delay, perf, request)"
    by (cases call) auto
  let ?key = "''rate_limit:'' @ identifier"
  let ?arrived = "cache\<lparr>now := now cache + delay\<rparr>"
  let ?result = "http_middleware env ?arrived perf request"
  from Cons.prems(1) call have rc: "rate_checked env identifier request"
    and soon: "delay < real_of_int (WINDOW env)"
    and rest: "list_all (\<lambda>(delay, perf, request).
             rate_checked env identifier request \<and> delay < real_of_int (WINDOW env)) calls"
    by simp_all
  from live_entry_read [OF Cons.prems(2) soon]
  have rd: "cache_get env ?arrived ?key = count_read k"
    by (simp add: assms(1))
  from Cons.prems(3) have below: "int k < MAX_REQUESTS env"
    by simp
  have same: "?result = passing_call env ?arrived perf request (int k + 1)"
    by (rule middleware_passing [OF rc rd below])
  from counted_call [OF rc rd below, of perf]
  have st: "fst (snd ?result) = cache_set env ?arrived ?key (int k + 1) (WINDOW env)"
    by simp
  then have entry: "entries (fst (snd ?result)) ?key
      = (if Suc k = 0 then None
         else Some (int (Suc k), now (fst (snd ?result)) + real_of_int (WINDOW env)))"
    by (simp add: assms(2) RedisLikeCache_set_def add.commute)
  from Cons.prems(3) have "int (Suc k + length calls) \<le> MAX_REQUESTS env"
    by simp
  from Cons.IH [OF rest entry this]
  have "serve env (fst (snd ?result)) calls = serve_passing env (Suc k) (fst (snd ?result)) calls" .
  then show ?case
    unfolding call serve.simps serve_passing.simps Let_def same [symmetric]
    by simp
qed

lemma serve_empty: "serve env cache calls = [] \<longleftrightarrow> calls = []"
  by (cases calls) (auto simp add: Let_def)

lemma delays_sum_nonneg:
  fixes calls :: "(real \<times> 'a \<times> 'b) list"
  shows "list_all (\<lambda>(delay, perf, request). P request \<and> 0 \<le> delay) calls \<Longrightarrow>
   0 \<le> sum_list (map fst calls)"
  by (induction calls) auto

lemma after_rejections:
  assumes "cache_get env = RedisLikeCache_get" and "cache_set env = RedisLikeCache_set"
      and "0 < MAX_REQUESTS env"
      and "list_all (\<lambda>(delay, perf, request).
             rate_checked env identifier request \<and> 0 \<le> delay) (rejected @ [(delay, perf, request)])"
      and "entries cache (''rate_limit:'' @ identifier) = Some (MAX_REQUESTS env, e)"
      and "now cache + sum_list (map fst rejected) < e"
      and "e \<le> now cache + sum_list (map fst rejected) + delay"
  shows "list_all (\<lambda>r. fst r = Inl (too_many_requests env) \<and>
             entries (fst (snd r)) = entries cache \<and>
             snd (snd r) = [CacheGet (''rate_limit:'' @ identifier)])
           (butlast (serve env cache (rejected @ [(delay, perf, request)]))) \<and>
         last (serve env cache (rejected @ [(delay, perf, request)]))
           = passing_call env (cache\<lparr>now := now cache + sum_list (map fst rejected) + delay\<rparr>)
               perf request 1"
  using assms(4-7)
proof (induction rejected arbitrary: cache)
  case Nil
  let ?key = "''rate_limit:'' @ identifier"
  let ?arrived = "cache\<lparr>now := now cache + delay\<rparr>"
  from Nil.prems(1) have rc: "rate_checked env identifier request"
    by simp
  from Nil.prems(2,4) have "cache_get env ?arrived ?key = count_read 0"
    by (simp add: assms(1) RedisLikeCache_get_def count_read_def)
  from middleware_passing [OF rc this, of perf] assms(3)
  have "http_middleware env ?arrived perf request = passing_call env ?arrived perf request 1"
    by simp
  then show ?case
    by (simp add: Let_def)
next
  case (Cons call rejected)
  obtain d p r where call: "call = (d, p, r)"
    by (cases call) auto
  let ?key = "''rate_limit:'' @ identifier"
  let ?arrived = "cache\<lparr>now := now cache + d\<rparr>"
  let ?late = "(delay, perf, request)"
  from Cons.prems(1) call have rc: "rate_checked env identifier r" and d: "0 \<le> d"
    and rest: "list_all (\<lambda>(delay, perf, request).
             rate_checked env identifier request \<and> 0 \<le> delay) (rejected @ [?late])"
    by simp_all
  from rest have "list_all (\<lambda>(delay, perf, request).
             rate_checked env identifier request \<and> 0 \<le> delay) rejected"
    by simp
  then have nonneg: "0 \<le> sum_list (map fst rejected)"
    by (rule delays_sum_nonneg)
  with Cons.prems(3) call have live: "now cache + d < e"
    by simp
  from assms(3) have k: "int (nat (MAX_REQUESTS env)) = MAX_REQUESTS env"
    by simp
  from Cons.prems(2) live assms(3)
  have "cache_get env ?arrived ?key = count_read (nat (MAX_REQUESTS env))"
    by (simp add: assms(1) RedisLikeCache_get_def count_read_def)
  from rejected_call [OF rc this k, of p]
  have head: "http_middleware env ?arrived p r = (Inl (too_many_requests env), ?arrived, [CacheGet ?key])" .
  have entry: "entries ?arrived ?key = Some (MAX_REQUESTS env, e)"
    using Cons.prems(2) by simp
  from Cons.prems(3) call have before: "now ?arrived + sum_list (map fst rejected) < e"
    by (simp add: add.assoc)
  from Cons.prems(4) call have after: "e \<le> now ?arrived + sum_list (map fst rejected) + delay"
    by (simp add: add.assoc)
  from Cons.IH [OF rest entry before after]
  have tail: "list_all (\<lambda>r. fst r = Inl (too_many_requests env) \<and>
             entries (fst (snd r)) = entries cache \<and> snd (snd r) = [CacheGet ?key])
           (butlast (serve env ?arrived (rejected @ [?late])))"
    and final: "last (serve env ?arrived (rejected @ [?late]))
           = passing_call env (cache\<lparr>now := now cache + (d + sum_list (map fst rejected)) + delay\<rparr>)
               perf request 1"
    by (simp_all add: add.assoc)
  have more: "serve env ?arrived (rejected @ [?late]) \<noteq> []"
    by (simp add: serve_empty)
  have "serve env cache ((call # rejected) @ [?late])
      = (Inl (too_many_requests env), ?arrived, [CacheGet ?key])
          # serve env ?arrived (rejected @ [?late])"
    by (simp add: call Let_def head)
  with tail final more show ?case
    by (simp add: call add.assoc)
qed


lemma limit_two_size_ok:
  "body_size_check (example_env\<lparr>MAX_REQUESTS := 2\<rparr>) example_request = Inr example_request"
  by (simp add: body_size_check_def example_defs py_int_defs)

lemma limit_two_call:
  "http_middleware (example_env\<lparr>MAX_REQUESTS := 2\<rparr>) cache perf example_request =
     (let n = incremented (RedisLikeCache_get cache ''rate_limit:10.0.0.1'') in
      if n > 2 then
        (Inl (too_many_requests (example_env\<lparr>MAX_REQUESTS := 2\<rparr>)), cache,
         [CacheGet ''rate_limit:10.0.0.1''])
      else
        (Inr (annotate (example_env\<lparr>MAX_REQUESTS := 2\<rparr>) perf example_request n
                \<lparr>status = 200, headers = Map.empty, content = ''ok''\<rparr>),
         RedisLikeCache_set cache ''rate_limit:10.0.0.1'' n 60,
         [CacheGet ''rate_limit:10.0.0.1'', CacheSet ''rate_limit:10.0.0.1'' n 60,
          CallNext example_request, IncrementRequest (response_time_ms perf)]))"
  using example_path
  by (simp add: http_middleware_def limit_two_size_ok Let_def) (simp add: example_defs)

text \<open>
  Claim C8, as stated: a client that keeps sending requests more often than every
  \<^verbatim>\<open>WINDOW\<close> seconds never gets a fresh count. With the limit 2 and a window of 60 seconds,
  four requests 50 seconds apart: the first two are counted 1 and 2, the third is rejected
  and writes nothing, so the entry written by the second request expires 60 seconds after
  it, and the fourth request is counted 1 again.
\<close>

theorem never_fresh_count_counterexample:
  "(50::real) < real_of_int (WINDOW (example_env\<lparr>MAX_REQUESTS := 2\<rparr>)) \<and>
   MAX_REQUESTS (example_env\<lparr>MAX_REQUESTS := 2\<rparr>) = 2 \<and>
   map (\<lambda>r. written ''rate_limit:10.0.0.1'' (snd (snd r)))
     (serve (example_env\<lparr>MAX_REQUESTS := 2\<rparr>) empty_cache
        [(0, (0, 1), example_request), (50, (0, 1), example_request),
         (50, (0, 1), example_request), (50, (0, 1), example_request)])
     = [[1], [2], [], [1]]"
proof -
  have "WINDOW example_env = 60"
    by (simp add: example_env_def)
  moreover have "map (\<lambda>r. written ''rate_limit:10.0.0.1'' (snd (snd r)))
     (serve (example_env\<lparr>MAX_REQUESTS := 2\<rparr>) empty_cache
        [(0, (0, 1), example_request), (50, (0, 1), example_request),
         (50, (0, 1), example_request), (50, (0, 1), example_request)])
     = [[1], [2], [], [1]]"
    by (simp add: limit_two_call Let_def RedisLikeCache_get_def RedisLikeCache_set_def
        incremented_def empty_cache_def)
  ultimately show ?thesis
    by simp
qed

text \<open>
  Claim C8, amended: on every allowed request the middleware calls
  \<^verbatim>\<open>cache.set(key, new_value, WINDOW)\<close>, which sets the deadline of the key to \<^verbatim>\<open>WINDOW\<close>
  seconds after the current call, so the time to live is refreshed on every increment
  and the policy is a sliding refresh, not a window fixed at the first request: a client
  whose requests are allowed and come less than \<^verbatim>\<open>WINDOW\<close> seconds apart never gets a
  fresh count, however long ago its first request was. A rejected request writes nothing
  and refreshes nothing: once the limit is reached, the requests of the next \<^verbatim>\<open>WINDOW\<close>
  seconds are rejected and leave the entries as they are, and the first request that
  comes \<^verbatim>\<open>WINDOW\<close> seconds or more after the last allowed one is counted 1 again.
\<close>

theorem deadline_refreshed_on_every_increment:
  assumes "cache_get env = RedisLikeCache_get" and "cache_set env = RedisLikeCache_set"
  shows "(path request \<notin> set [''/docs'', ''/redoc'', ''/openapi.json''] \<and>
          body_size_check env request = Inr request' \<and>
          key = ''rate_limit:'' @ get_client_identifier env request' \<and>
          incremented (RedisLikeCache_get cache key) \<le> MAX_REQUESTS env \<longrightarrow>
            http_middleware env cache perf request
              = passing_call env cache perf request (incremented (RedisLikeCache_get cache key)) \<and>
            CacheSet key (incremented (RedisLikeCache_get cache key)) (WINDOW env)
              \<in> set (snd (snd (http_middleware env cache perf request))) \<and>
            entries (fst (snd (http_middleware env cache perf request))) key
              = Some (incremented (RedisLikeCache_get cache key),
                      now cache + real_of_int (WINDOW env))) \<and>
         (entries initial (''rate_limit:'' @ client_identifier) = None \<and>
          list_all (\<lambda>(delay, perf, request).
            rate_checked env client_identifier request \<and> delay < real_of_int (WINDOW env)) calls \<and>
          int (length calls) \<le> MAX_REQUESTS env \<longrightarrow>
            serve env initial calls = serve_passing env 0 initial calls \<and>
            map (\<lambda>r. written (''rate_limit:'' @ client_identifier) (snd (snd r)))
              (serve env initial calls)
              = map (\<lambda>i. [int i + 1]) [0..<length calls]) \<and>
         (0 < MAX_REQUESTS env \<and>
          entries limited (''rate_limit:'' @ client_identifier)
            = Some (MAX_REQUESTS env, now limited + real_of_int (WINDOW env)) \<and>
          list_all (\<lambda>(delay, perf, request).
            rate_checked env client_identifier request \<and> 0 \<le> delay)
            (rejected @ [(late, late_perf, late_request)]) \<and>
          sum_list (map fst rejected) < real_of_int (WINDOW env) \<and>
          real_of_int (WINDOW env) \<le> sum_list (map fst rejected) + late \<longrightarrow>
            list_all (\<lambda>r. fst r = Inl (too_many_requests env) \<and>
                entries (fst (snd r)) = entries limited \<and>
                snd (snd r) = [CacheGet (''rate_limit:'' @ client_identifier)])
              (butlast (serve env limited (rejected @ [(late, late_perf, late_request)]))) \<and>
            last (serve env limited (rejected @ [(late, late_perf, late_request)]))
              = passing_call env
                  (limited\<lparr>now := now limited + sum_list (map fst rejected) + late\<rparr>)
                  late_perf late_request 1)"
proof (intro conjI impI)
  assume a: "path request \<notin> set [''/docs'', ''/redoc'', ''/openapi.json''] \<and>
          body_size_check env request = Inr request' \<and>
          key = ''rate_limit:'' @ get_client_identifier env request' \<and>
          incremented (RedisLikeCache_get cache key) \<le> MAX_REQUESTS env"
  then have p: "path request \<notin> set [''/docs'', ''/redoc'', ''/openapi.json'']"
    and b: "body_size_check env request = Inr request'"
    and k: "key = ''rate_limit:'' @ get_client_identifier env request'"
    and le: "incremented (RedisLikeCache_get cache key) \<le> MAX_REQUESTS env"
    by blast+
  have n: "incremented (RedisLikeCache_get cache key) = incremented (cache_get env cache key)"
    by (simp add: assms(1))
  show "http_middleware env cache perf request
      = passing_call env cache perf request (incremented (RedisLikeCache_get cache key))"
    unfolding middleware_allowed [OF p b k n le]
    using k by (simp add: passing_call_def b Let_def split: sum.splits)
  show "CacheSet key (incremented (RedisLikeCache_get cache key)) (WINDOW env)
      \<in> set (snd (snd (http_middleware env cache perf request)))"
    unfolding middleware_allowed [OF p b k n le]
    by (cases "call_next env request'") simp_all
  show "entries (fst (snd (http_middleware env cache perf request))) key
      = Some (incremented (RedisLikeCache_get cache key), now cache + real_of_int (WINDOW env))"
    unfolding middleware_allowed [OF p b k n le]
    by (cases "call_next env request'") (simp_all add: assms(2) RedisLikeCache_set_def)
next
  assume s: "entries initial (''rate_limit:'' @ client_identifier) = None \<and>
          list_all (\<lambda>(delay, perf, request).
            rate_checked env client_identifier request \<and> delay < real_of_int (WINDOW env)) calls \<and>
          int (length calls) \<le> MAX_REQUESTS env"
  then have fresh: "entries initial (''rate_limit:'' @ client_identifier)
      = (if (0::nat) = 0 then None else Some (int 0, now initial + real_of_int (WINDOW env)))"
    by simp
  from serve_counts [OF assms _ fresh, of calls] s
  show "map (\<lambda>r. written (''rate_limit:'' @ client_identifier) (snd (snd r)))
      (serve env initial calls) = map (\<lambda>i. [int i + 1]) [0..<length calls]"
    by simp
  from serve_passes [OF assms _ fresh, of calls] s
  show "serve env initial calls = serve_passing env 0 initial calls"
    by simp
next
  assume r: "0 < MAX_REQUESTS env \<and>
          entries limited (''rate_limit:'' @ client_identifier)
            = Some (MAX_REQUESTS env, now limited + real_of_int (WINDOW env)) \<and>
          list_all (\<lambda>(delay, perf, request).
            rate_checked env client_identifier request \<and> 0 \<le> delay)
            (rejected @ [(late, late_perf, late_request)]) \<and>
          sum_list (map fst rejected) < real_of_int (WINDOW env) \<and>
          real_of_int (WINDOW env) \<le> sum_list (map fst rejected) + late"
  then have pos: "0 < MAX_REQUESTS env"
    and entry: "entries limited (''rate_limit:'' @ client_identifier)
        = Some (MAX_REQUESTS env, now limited + real_of_int (WINDOW env))"
    and ok: "list_all (\<lambda>(delay, perf, request).
        rate_checked env client_identifier request \<and> 0 \<le> delay)
        (rejected @ [(late, late_perf, late_request)])"
    and before: "now limited + sum_list (map fst rejected) < now limited + real_of_int (WINDOW env)"
    and after: "now limited + real_of_int (WINDOW env)
        \<le> now limited + sum_list (map fst rejected) + late"
    by simp_all
  from after_rejections [OF assms pos ok entry before after]
  show "list_all (\<lambda>r. fst r = Inl (too_many_requests env) \<and>
                entries (fst (snd r)) = entries limited \<and>
                snd (snd r) = [CacheGet (''rate_limit:'' @ client_identifier)])
              (butlast (serve env limited (rejected @ [(late, late_perf, late_request)])))"
    and "last (serve env limited (rejected @ [(late, late_perf, late_request)]))
              = passing_call env
                  (limited\<lparr>now := now limited + sum_list (map fst rejected) + late\<rparr>)
                  late_perf late_request 1"
    by blast+
qed

theorem deadline_refreshed_on_every_increment_witness:
  "cache_get example_env = RedisLikeCache_get \<and> cache_set example_env = RedisLikeCache_set \<and>
   path example_request \<notin> set [''/docs'', ''/redoc'', ''/openapi.json''] \<and>
   body_size_check example_env example_request = Inr example_request \<and>
   incremented (RedisLikeCache_get (counting 100 2 150) ''rate_limit:10.0.0.1'') = 3 \<and>
   3 \<le> MAX_REQUESTS example_env \<and>
   http_middleware example_env (counting 100 2 150) (0, 1) example_request
     = passing_call example_env (counting 100 2 150) (0, 1) example_request 3 \<and>
   CacheSet ''rate_limit:10.0.0.1'' 3 60
     \<in> set (snd (snd (http_middleware example_env (counting 100 2 150) (0, 1) example_request))) \<and>
   entries (fst (snd (http_middleware example_env (counting 100 2 150) (0, 1) example_request)))
       ''rate_limit:10.0.0.1'' = Some (3, 160) \<and>
   entries empty_cache ''rate_limit:10.0.0.1'' = None \<and>
   list_all (\<lambda>(delay, perf, request).
       rate_checked example_env ''10.0.0.1'' request \<and> delay < real_of_int (WINDOW example_env))
     [(50::real, (0::real, 1::real), example_request), (50, (0, 1), example_request),
      (50, (0, 1), example_request)] \<and>
   serve example_env empty_cache
       [(50::real, (0::real, 1::real), example_request), (50, (0, 1), example_request),
      (50, (0, 1), example_request)]
     = serve_passing example_env 0 empty_cache
       [(50::real, (0::real, 1::real), example_request), (50, (0, 1), example_request),
      (50, (0, 1), example_request)] \<and>
   map (\<lambda>r. written ''rate_limit:10.0.0.1'' (snd (snd r)))
     (serve example_env empty_cache
        [(50::real, (0::real, 1::real), example_request), (50, (0, 1), example_request),
      (50, (0, 1), example_request)])
     = [[1], [2], [3]] \<and>
   0 < MAX_REQUESTS example_env \<and>
   entries (counting 100 5 160) ''rate_limit:10.0.0.1''
     = Some (MAX_REQUESTS example_env, now (counting 100 5 160) + real_of_int (WINDOW example_env)) \<and>
   list_all (\<lambda>(delay, perf, request). rate_checked example_env ''10.0.0.1'' request \<and> 0 \<le> delay)
     ([(10::real, (0::real, 1::real), example_request), (20, (0, 1), example_request)]
        @ [(40, (0, 1), example_request)]) \<and>
   sum_list (map fst [(10::real, (0::real, 1::real), example_request), (20, (0, 1), example_request)])
     < real_of_int (WINDOW example_env) \<and>
   real_of_int (WINDOW example_env)
     \<le> sum_list (map fst [(10::real, (0::real, 1::real), example_request),
                            (20, (0, 1), example_request)]) + 40 \<and>
   list_all (\<lambda>r. fst r = Inl (too_many_requests example_env) \<and>
       entries (fst (snd r)) = entries (counting 100 5 160) \<and>
       snd (snd r) = [CacheGet ''rate_limit:10.0.0.1''])
     (butlast (serve example_env (counting 100 5 160)
        ([(10, (0, 1), example_request), (20, (0, 1), example_request)]
           @ [(40, (0, 1), example_request)]))) \<and>
   last (serve example_env (counting 100 5 160)
        ([(10, (0, 1), example_request), (20, (0, 1), example_request)]
           @ [(40, (0, 1), example_request)]))
     = (Inr (annotate example_env (0, 1) example_request 1
               \<lparr>status = 200, headers = Map.empty, content = ''ok''\<rparr>),
        counting 170 1 230,
        [CacheGet ''rate_limit:10.0.0.1'', CacheSet ''rate_limit:10.0.0.1'' 1 60,
         CallNext example_request, IncrementRequest 1000])"
proof -
  let ?key = "''rate_limit:10.0.0.1''"
  let ?calls = "[(50, (0, 1), example_request), (50, (0, 1), example_request),
      (50::real, (0::real, 1::real), example_request)]"
  let ?rejected = "[(10::real, (0::real, 1::real), example_request), (20, (0, 1), example_request)]"
  have g: "cache_get example_env = RedisLikeCache_get" and s: "cache_set example_env = RedisLikeCache_set"
    by (simp_all add: example_env_def)
  have vals: "get_client_identifier example_env example_request = ''10.0.0.1''"
      "MAX_REQUESTS example_env = 5" "WINDOW example_env = 60"
    by (simp_all add: example_defs)
  have n: "incremented (RedisLikeCache_get (counting 100 2 150) ?key) = 3"
    by (simp add: counting_def RedisLikeCache_get_def incremented_def)
  have le: "3 \<le> MAX_REQUESTS example_env"
    by (simp add: vals)
  have e: "entries empty_cache ?key = None"
    by (simp add: empty_cache_def)
  have ok: "list_all (\<lambda>(delay, perf, request).
       rate_checked example_env ''10.0.0.1'' request \<and> delay < real_of_int (WINDOW example_env))
     ?calls"
    by (simp add: example_rate_checked vals)
  have pos: "0 < MAX_REQUESTS example_env"
    by (simp add: vals)
  have now: "now (counting 100 5 160) = 100" "now (counting 100 2 150) = 100"
    by (simp_all add: counting_def)
  have limited: "entries (counting 100 5 160) ?key
     = Some (MAX_REQUESTS example_env, now (counting 100 5 160) + real_of_int (WINDOW example_env))"
    by (simp add: vals) (simp add: counting_def)
  have ok': "list_all (\<lambda>(delay, perf, request).
       rate_checked example_env ''10.0.0.1'' request \<and> 0 \<le> delay)
     (?rejected @ [(40, (0, 1), example_request)])"
    by (simp add: example_rate_checked)
  have before: "sum_list (map fst ?rejected) < real_of_int (WINDOW example_env)"
    by (simp add: vals)
  have after: "real_of_int (WINDOW example_env) \<le> sum_list (map fst ?rejected) + 40"
    by (simp add: vals)
  note claim = deadline_refreshed_on_every_increment [OF g s,
      where request = example_request and request' = example_request
        and key = ?key and cache = "counting 100 2 150" and perf = "(0, 1)"
        and initial = empty_cache and client_identifier = "''10.0.0.1''" and calls = ?calls
        and limited = "counting 100 5 160" and rejected = ?rejected and late = 40
        and late_perf = "(0, 1)" and late_request = example_request]
  have "path example_request \<notin> set [''/docs'', ''/redoc'', ''/openapi.json''] \<and>
      body_size_check example_env example_request = Inr example_request \<and>
      ?key = ''rate_limit:'' @ get_client_identifier example_env example_request \<and>
      incremented (RedisLikeCache_get (counting 100 2 150) ?key) \<le> MAX_REQUESTS example_env"
    using example_path example_size_ok by (simp add: vals n)
  note single = claim [THEN conjunct1, THEN mp, OF this]
  have w1: "http_middleware example_env (counting 100 2 150) (0, 1) example_request
     = passing_call example_env (counting 100 2 150) (0, 1) example_request 3"
    using single [THEN conjunct1] by (simp add: n)
  have w2: "CacheSet ?key 3 60
     \<in> set (snd (snd (http_middleware example_env (counting 100 2 150) (0, 1) example_request)))"
    using single [THEN conjunct2, THEN conjunct1] by (simp add: n vals)
  have w3: "entries (fst (snd (http_middleware example_env (counting 100 2 150) (0, 1) example_request)))
       ?key = Some (3, 160)"
    using single [THEN conjunct2, THEN conjunct2] by (simp add: n vals now)
  have "entries empty_cache (''rate_limit:'' @ ''10.0.0.1'') = None \<and>
      list_all (\<lambda>(delay, perf, request).
        rate_checked example_env ''10.0.0.1'' request \<and> delay < real_of_int (WINDOW example_env))
        ?calls \<and>
      int (length ?calls) \<le> MAX_REQUESTS example_env"
    using e ok by (simp add: vals)
  note sequence = claim [THEN conjunct2, THEN conjunct1, THEN mp, OF this]
  have w4: "serve example_env empty_cache ?calls = serve_passing example_env 0 empty_cache ?calls"
    using sequence [THEN conjunct1] .
  have upt: "[0..<3] = [0, 1, 2]"
    by (simp add: upt_rec)
  have w5: "map (\<lambda>r. written ?key (snd (snd r))) (serve example_env empty_cache ?calls)
     = [[1], [2], [3]]"
    using sequence [THEN conjunct2] by (simp add: upt)
  have "0 < MAX_REQUESTS example_env \<and>
      entries (counting 100 5 160) (''rate_limit:'' @ ''10.0.0.1'')
        = Some (MAX_REQUESTS example_env,
                now (counting 100 5 160) + real_of_int (WINDOW example_env)) \<and>
      list_all (\<lambda>(delay, perf, request).
        rate_checked example_env ''10.0.0.1'' request \<and> 0 \<le> delay)
        (?rejected @ [(40, (0, 1), example_request)]) \<and>
      sum_list (map fst ?rejected) < real_of_int (WINDOW example_env) \<and>
      real_of_int (WINDOW example_env) \<le> sum_list (map fst ?rejected) + 40"
    using pos limited ok' before after by simp
  note rejections = claim [THEN conjunct2, THEN conjunct2, THEN mp, OF this]
  have w6: "list_all (\<lambda>r. fst r = Inl (too_many_requests example_env) \<and>
       entries (fst (snd r)) = entries (counting 100 5 160) \<and>
       snd (snd r) = [CacheGet ?key])
     (butlast (serve example_env (counting 100 5 160)
        (?rejected @ [(40, (0, 1), example_request)])))"
    using rejections [THEN conjunct1] by simp
  have "passing_call example_env ((counting 100 5 160)\<lparr>now := 170\<rparr>) (0, 1) example_request 1
     = (Inr (annotate example_env (0, 1) example_request 1
               \<lparr>status = 200, headers = Map.empty, content = ''ok''\<rparr>),
        counting 170 1 230,
        [CacheGet ?key, CacheSet ?key 1 60, CallNext example_request, IncrementRequest 1000])"
    by (simp add: example_passing_call RedisLikeCache_set_def counting_def response_time_ms_def)
  with rejections [THEN conjunct2]
  have w7: "last (serve example_env (counting 100 5 160)
        (?rejected @ [(40, (0, 1), example_request)]))
     = (Inr (annotate example_env (0, 1) example_request 1
               \<lparr>status = 200, headers = Map.empty, content = ''ok''\<rparr>),
        counting 170 1 230,
        [CacheGet ?key, CacheSet ?key 1 60, CallNext example_request, IncrementRequest 1000])"
    by (simp add: now)
  from g s example_path example_size_ok n le w1 w2 w3 e ok w4 w5 pos limited ok' before after w6 w7
  show ?thesis
    by (intro conjI) assumption+
qed

end
